theory Spec2Isabelle
  imports Main "HOL-Library.Word" "HOL-Library.AList"
begin

unbundle bit_operations_syntax

section \<open>Machine types (include/common.h)\<close>

text \<open>
  The fixed-width integers of \<^verbatim>\<open>common.h\<close> are words: arithmetic wraps around as in C.
  A \<^verbatim>\<open>char\<close> buffer is a list of bytes; a \<^verbatim>\<open>void*\<close> of the 64-bit targets is a 64-bit word,
  and \<^verbatim>\<open>NULL\<close> is 0.
\<close>

type_synonym u8 = "8 word"
type_synonym u16 = "16 word"
type_synonym u32 = "32 word"
type_synonym u64 = "64 word"
type_synonym ptr = "64 word"

definition TRACE_ID_SIZE :: nat where "TRACE_ID_SIZE = 16"
definition SPAN_ID_SIZE :: nat where "SPAN_ID_SIZE = 8"
definition TRACE_ID_STRING_SIZE :: nat where "TRACE_ID_STRING_SIZE = 32"
definition SPAN_ID_STRING_SIZE :: nat where "SPAN_ID_STRING_SIZE = 16"
definition MAX_PATH_SIZE :: nat where "MAX_PATH_SIZE = 256"
definition MAX_METHOD_SIZE :: nat where "MAX_METHOD_SIZE = 16"
definition MAX_CONCURRENT :: nat where "MAX_CONCURRENT = 50"

section \<open>Hexadecimal rendering (include/utils.h)\<close>

text \<open>
  \<^verbatim>\<open>hex_char\<close>: \<^verbatim>\<open>if (value < 10) return '0' + value; return 'a' + (value - 10);\<close>
  The result is a \<^verbatim>\<open>char\<close>, so the sum is taken modulo 256.
\<close>

definition hex_char :: "u8 \<Rightarrow> u8" where
  "hex_char v = (if v < 10 then of_char CHR ''0'' + v else of_char CHR ''a'' + (v - 10))"

text \<open>
  \<^verbatim>\<open>bytes_to_hex_string\<close>: the loop \<^verbatim>\<open>for (u32 i = 0; i < size; i++)\<close> with the loop
  variable and the output buffer as arguments. The indices \<^verbatim>\<open>i * 2\<close> and \<^verbatim>\<open>i * 2 + 1\<close>
  are computed in \<^verbatim>\<open>u32\<close>, as the C does. An access outside either buffer is undefined
  in C; the model returns \<open>None\<close> there.
\<close>

function bytes_to_hex_loop :: "u8 list \<Rightarrow> u32 \<Rightarrow> u32 \<Rightarrow> u8 list \<Rightarrow> u8 list option" where
  "bytes_to_hex_loop bytes sz i out =
     (if i < sz then
        (if unat i < length bytes \<and> unat (i * 2) < length out \<and> unat (i * 2 + 1) < length out
         then bytes_to_hex_loop bytes sz (i + 1)
                (out[unat (i * 2) := hex_char (drop_bit 4 (bytes ! unat i) AND 0x0F),
                     unat (i * 2 + 1) := hex_char ((bytes ! unat i) AND 0x0F)])
         else None)
      else Some out)"
  by pat_completeness auto
termination
  by (relation "measure (\<lambda>(bytes, sz, i, out). unat sz - unat i)") (simp, unat_arith)

declare bytes_to_hex_loop.simps [simp del]

definition bytes_to_hex_string :: "u8 list \<Rightarrow> u32 \<Rightarrow> u8 list \<Rightarrow> u8 list option" where
  "bytes_to_hex_string bytes sz out = bytes_to_hex_loop bytes sz 0 out"

text \<open>
  The specification's side of the rendering: the sixteen lowercase hexadecimal digits,
  and the string that has, for every byte in order, the digit of its high nibble and
  then the digit of its low nibble.
\<close>

definition lowercase_hex_digits :: string where
  "lowercase_hex_digits = ''0123456789abcdef''"

definition lowercase_hex :: "u8 list \<Rightarrow> string" where
  "lowercase_hex bytes =
     concat (map (\<lambda>b. [lowercase_hex_digits ! (unat b div 16),
                         lowercase_hex_digits ! (unat b mod 16)]) bytes)"

definition ascii :: "string \<Rightarrow> u8 list" where
  "ascii s = map of_char s"

text \<open>The two characters the loop body writes for one byte.\<close>

definition hex_pair :: "u8 \<Rightarrow> u8 list" where
  "hex_pair b = [hex_char (drop_bit 4 b AND 0x0F), hex_char (b AND 0x0F)]"

section \<open>The environment of a probe\<close>

text \<open>
  A probe runs to completion on one invocation. What it reads from outside is given to
  it: the registers (\<^verbatim>\<open>struct pt_regs *ctx\<close>), the memory of the target as
  \<^verbatim>\<open>bpf_probe_read\<close> sees it, the reading of \<^verbatim>\<open>bpf_ktime_get_ns()\<close> and the span
  context that \<^verbatim>\<open>generate_span_context()\<close> returns in this invocation.

  \<^verbatim>\<open>span_context.h\<close> (the type \<^verbatim>\<open>struct span_context\<close>, the generator and the map
  \<^verbatim>\<open>spans_in_progress\<close>) is not among the sources: the type is the parameter \<open>'sc\<close>,
  the generated value is an input, and the map's \<^verbatim>\<open>max_entries\<close> is the field
  \<open>spans_max_entries\<close> of the configuration.
\<close>

type_synonym memory = "ptr \<Rightarrow> u8 option"

text \<open>
  \<^verbatim>\<open>bpf_probe_read(dst, n, src)\<close> copies \<open>n\<close> bytes from \<open>src\<close>; it fails (\<open>None\<close>) when
  one of the addresses is not mapped, and then the kernel fills the \<open>n\<close> bytes of the
  destination with zeros. No probe looks at the helper's return value.
\<close>

definition bpf_probe_read :: "memory \<Rightarrow> nat \<Rightarrow> ptr \<Rightarrow> u8 list option" where
  "bpf_probe_read mem n src = those (map (\<lambda>i. mem (src + of_nat i)) [0..<n])"

text \<open>The destination buffer \<open>dst\<close> after \<^verbatim>\<open>bpf_probe_read(&dst, n, src)\<close>.\<close>

definition probe_read_into :: "memory \<Rightarrow> u8 list \<Rightarrow> nat \<Rightarrow> ptr \<Rightarrow> u8 list" where
  "probe_read_into mem dst n src =
     (case bpf_probe_read mem n src of
        Some bs \<Rightarrow> bs @ drop n dst
      | None \<Rightarrow> replicate n 0 @ drop n dst)"

text \<open>
  An 8-byte local (\<^verbatim>\<open>void* p = NULL\<close> or \<^verbatim>\<open>u64 len = 0\<close>) after
  \<^verbatim>\<open>bpf_probe_read(&local, 8, src)\<close>: the little-endian value of the eight bytes, or 0
  when the read fails.
\<close>

definition le_u64 :: "u8 list \<Rightarrow> u64" where
  "le_u64 bs = foldr (\<lambda>b w. ucast b OR push_bit 8 w) bs 0"

definition probe_read_u64 :: "memory \<Rightarrow> ptr \<Rightarrow> u64" where
  "probe_read_u64 mem src = (case bpf_probe_read mem 8 src of Some bs \<Rightarrow> le_u64 bs | None \<Rightarrow> 0)"

record 'sc bpf_env =
  bpf_ktime_get_ns :: u64
  generate_span_context :: 'sc
  user_memory :: memory

subsection \<open>Arguments (include/arguments.h, the x86-64 branch)\<close>

record pt_regs =
  PT_REGS_PARM1 :: ptr
  PT_REGS_PARM2 :: ptr
  PT_REGS_PARM3 :: ptr
  PT_REGS_PARM4 :: ptr
  PT_REGS_PARM5 :: ptr
  PT_REGS_PARM6 :: ptr
  PT_REGS_SP :: u64
  PT_REGS_RC :: u64

definition get_argument :: "pt_regs \<Rightarrow> int \<Rightarrow> ptr" where
  "get_argument ctx pos =
     (if pos = 1 then PT_REGS_PARM1 ctx
      else if pos = 2 then PT_REGS_PARM2 ctx
      else if pos = 3 then PT_REGS_PARM3 ctx
      else if pos = 4 then PT_REGS_PARM4 ctx
      else if pos = 5 then PT_REGS_PARM5 ctx
      else if pos = 6 then PT_REGS_PARM6 ctx
      else 0)"

definition get_argument_by_stack :: "memory \<Rightarrow> pt_regs \<Rightarrow> int \<Rightarrow> ptr" where
  "get_argument_by_stack mem ctx pos = probe_read_u64 mem (PT_REGS_SP ctx + word_of_int (pos * 8))"

subsection \<open>Hash maps of fixed capacity\<close>

text \<open>
  A \<^verbatim>\<open>BPF_MAP_TYPE_HASH\<close> is a list of key-value pairs with distinct keys.
  \<^verbatim>\<open>bpf_map_update_elem(map, key, value, 0)\<close> (flag \<^verbatim>\<open>BPF_ANY\<close>) overwrites the value of a
  key that is present, adds a key that is absent while the map has fewer than
  \<^verbatim>\<open>max_entries\<close> entries, and otherwise fails with \<^verbatim>\<open>-E2BIG\<close> and leaves the map as it
  is. \<^verbatim>\<open>bpf_map_delete_elem\<close> fails with \<^verbatim>\<open>-ENOENT\<close> on an absent key. Both return their
  status beside the map; the probes drop it.
\<close>

type_synonym ('k, 'v) bpf_hash = "('k \<times> 'v) list"

definition E2BIG :: int where "E2BIG = 7"
definition ENOENT :: int where "ENOENT = 2"

definition bpf_map_lookup_elem :: "('k, 'v) bpf_hash \<Rightarrow> 'k \<Rightarrow> 'v option" where
  "bpf_map_lookup_elem m k = map_of m k"

definition bpf_map_update_elem ::
  "nat \<Rightarrow> ('k, 'v) bpf_hash \<Rightarrow> 'k \<Rightarrow> 'v \<Rightarrow> int \<times> ('k, 'v) bpf_hash" where
  "bpf_map_update_elem max_entries m k v =
     (if map_of m k \<noteq> None \<or> length m < max_entries
      then (0, AList.update k v m)
      else (- E2BIG, m))"

definition bpf_map_delete_elem :: "('k, 'v) bpf_hash \<Rightarrow> 'k \<Rightarrow> int \<times> ('k, 'v) bpf_hash" where
  "bpf_map_delete_elem m k =
     (if map_of m k \<noteq> None then (0, AList.delete k m) else (- ENOENT, m))"

section \<open>Request records (include/rust_context.h)\<close>

text \<open>
  The two structs have fields of the same names; the fields of the records carry the
  prefix \<open>http_\<close> or \<open>grpc_\<close>. A \<^verbatim>\<open>char\<close> array is a list of bytes, of the length of the
  array in every record that a probe builds.
\<close>

record 'sc http_request_t =
  http_start_time :: u64
  http_end_time :: u64
  http_method :: "u8 list"
  http_path :: "u8 list"
  http_status_code :: u16
  http_sc :: 'sc

record 'sc grpc_request_t =
  grpc_start_time :: u64
  grpc_end_time :: u64
  grpc_service :: "u8 list"
  grpc_method :: "u8 list"
  grpc_status_code :: u32
  grpc_sc :: 'sc

text \<open>
  The offsets that the loader writes into the \<^verbatim>\<open>volatile const\<close> variables of the two
  programs, and the capacity of \<^verbatim>\<open>spans_in_progress\<close>.
\<close>

record probe_config =
  spans_max_entries :: nat
  method_ptr_pos :: u64
  uri_ptr_pos :: u64
  path_ptr_pos :: u64
  service_ptr_pos :: u64

section \<open>The HTTP probes (hyper/bpf/probe.bpf.c)\<close>

text \<open>
  The maps of the program: the hash map \<^verbatim>\<open>context_to_http_events\<close>, the map
  \<^verbatim>\<open>spans_in_progress\<close>, and the records handed to \<^verbatim>\<open>bpf_perf_event_output\<close> on
  \<^verbatim>\<open>events\<close>, oldest first. Whether the perf buffer has room for a record is the
  consumer's side of the channel and is not modelled.
\<close>

text \<open>
  Modelled from the spec: \<^verbatim>\<open>spans_in_progress\<close> is declared in \<^verbatim>\<open>span_context.h\<close>, which
  is not among the sources. The specification describes it as a side-table keyed the same
  way as the Correlation Table, so it is a hash map of the same kind here, with the
  capacity \<open>spans_max_entries\<close> of the configuration, and each program has its own.
\<close>

record 'sc hyper_maps =
  context_to_http_events :: "(ptr, 'sc http_request_t) bpf_hash"
  http_spans_in_progress :: "(ptr, 'sc) bpf_hash"
  events :: "'sc http_request_t list"

definition hyper_init :: "'sc hyper_maps" where
  "hyper_init = \<lparr>context_to_http_events = [], http_spans_in_progress = [], events = []\<rparr>"

text \<open>
  Every probe returns 0 on every path; the result is that value and the maps. In an
  entry probe the zero-initialisation \<^verbatim>\<open>httpReq = {}\<close> and the assignments to
  \<^verbatim>\<open>start_time\<close> and \<^verbatim>\<open>sc\<close> are one record: no other field is assigned before the
  record goes into the table. In the other probes \<^verbatim>\<open>bpf_probe_read\<close> copies the whole
  map value into the local record, which is written \<open>httpReq_ptr\<close> here.
\<close>

definition uprobe_hyper_serve_connection ::
  "probe_config \<Rightarrow> 'sc bpf_env \<Rightarrow> pt_regs \<Rightarrow> 'sc hyper_maps \<Rightarrow> int \<times> 'sc hyper_maps" where
  "uprobe_hyper_serve_connection cfg env ctx s =
     (let httpReq = \<lparr>http_start_time = bpf_ktime_get_ns env, http_end_time = 0,
                      http_method = replicate MAX_METHOD_SIZE 0,
                      http_path = replicate MAX_PATH_SIZE 0,
                      http_status_code = 0, http_sc = generate_span_context env\<rparr>;
          self_ptr = get_argument ctx 1
      in if self_ptr = 0 then (0, s)
         else
           let s1 = s\<lparr>context_to_http_events :=
                       snd (bpf_map_update_elem MAX_CONCURRENT (context_to_http_events s)
                              self_ptr httpReq)\<rparr>;
               s2 = s1\<lparr>http_spans_in_progress :=
                       snd (bpf_map_update_elem (spans_max_entries cfg) (http_spans_in_progress s1)
                              self_ptr (http_sc httpReq))\<rparr>
           in (0, s2))"

definition uprobe_hyper_serve_connection_return ::
  "'sc bpf_env \<Rightarrow> pt_regs \<Rightarrow> 'sc hyper_maps \<Rightarrow> int \<times> 'sc hyper_maps" where
  "uprobe_hyper_serve_connection_return env ctx s =
     (let self_ptr = get_argument_by_stack (user_memory env) ctx 1
      in if self_ptr = 0 then (0, s)
         else
           case bpf_map_lookup_elem (context_to_http_events s) self_ptr of
             None \<Rightarrow> (0, s)
           | Some httpReq_ptr \<Rightarrow>
               let httpReq = httpReq_ptr\<lparr>http_end_time := bpf_ktime_get_ns env\<rparr>;
                   s1 = s\<lparr>events := events s @ [httpReq]\<rparr>;
                   s2 = s1\<lparr>context_to_http_events :=
                           snd (bpf_map_delete_elem (context_to_http_events s1) self_ptr)\<rparr>;
                   s3 = s2\<lparr>http_spans_in_progress :=
                           snd (bpf_map_delete_elem (http_spans_in_progress s2) self_ptr)\<rparr>
               in (0, s3))"

definition uprobe_hyper_request_method ::
  "probe_config \<Rightarrow> 'sc bpf_env \<Rightarrow> pt_regs \<Rightarrow> 'sc hyper_maps \<Rightarrow> int \<times> 'sc hyper_maps" where
  "uprobe_hyper_request_method cfg env ctx s =
     (let request_ptr = get_argument ctx 1
      in if request_ptr = 0 then (0, s)
         else
           let method_ptr = probe_read_u64 (user_memory env) (request_ptr + method_ptr_pos cfg)
           in if method_ptr = 0 then (0, s)
              else
                case bpf_map_lookup_elem (context_to_http_events s) request_ptr of
                  None \<Rightarrow> (0, s)
                | Some httpReq_ptr \<Rightarrow>
                    let method_len = probe_read_u64 (user_memory env)
                                       (request_ptr + method_ptr_pos cfg + 8);
                        method_size = of_nat MAX_METHOD_SIZE;
                        method_size = (if method_size < method_len then method_size
                                       else method_len);
                        httpReq = httpReq_ptr\<lparr>http_method :=
                                    probe_read_into (user_memory env) (http_method httpReq_ptr)
                                      (unat method_size) method_ptr\<rparr>
                    in (0, s\<lparr>context_to_http_events :=
                               snd (bpf_map_update_elem MAX_CONCURRENT (context_to_http_events s)
                                      request_ptr httpReq)\<rparr>))"

definition uprobe_hyper_request_uri ::
  "probe_config \<Rightarrow> 'sc bpf_env \<Rightarrow> pt_regs \<Rightarrow> 'sc hyper_maps \<Rightarrow> int \<times> 'sc hyper_maps" where
  "uprobe_hyper_request_uri cfg env ctx s =
     (let request_ptr = get_argument ctx 1
      in if request_ptr = 0 then (0, s)
         else
           let uri_ptr = probe_read_u64 (user_memory env) (request_ptr + uri_ptr_pos cfg)
           in if uri_ptr = 0 then (0, s)
              else
                case bpf_map_lookup_elem (context_to_http_events s) request_ptr of
                  None \<Rightarrow> (0, s)
                | Some httpReq_ptr \<Rightarrow>
                    let path_ptr = probe_read_u64 (user_memory env) (uri_ptr + path_ptr_pos cfg);
                        path_len = probe_read_u64 (user_memory env)
                                     (uri_ptr + path_ptr_pos cfg + 8);
                        path_size = of_nat MAX_PATH_SIZE;
                        path_size = (if path_size < path_len then path_size else path_len);
                        httpReq = httpReq_ptr\<lparr>http_path :=
                                    probe_read_into (user_memory env) (http_path httpReq_ptr)
                                      (unat path_size) path_ptr\<rparr>
                    in (0, s\<lparr>context_to_http_events :=
                               snd (bpf_map_update_elem MAX_CONCURRENT (context_to_http_events s)
                                      request_ptr httpReq)\<rparr>))"

section \<open>The gRPC probes (tonic/bpf/probe.bpf.c)\<close>

text \<open>
  The server and the client probes share the hash map \<^verbatim>\<open>context_to_grpc_events\<close> and
  the channel \<^verbatim>\<open>grpc_events\<close>.
\<close>

text \<open>
  Modelled from the spec: \<^verbatim>\<open>spans_in_progress\<close>, declared in the absent
  \<^verbatim>\<open>span_context.h\<close>, is again a hash map of capacity \<open>spans_max_entries\<close>, this program's
  own.
\<close>

record 'sc tonic_maps =
  context_to_grpc_events :: "(ptr, 'sc grpc_request_t) bpf_hash"
  grpc_spans_in_progress :: "(ptr, 'sc) bpf_hash"
  grpc_events :: "'sc grpc_request_t list"

definition tonic_init :: "'sc tonic_maps" where
  "tonic_init = \<lparr>context_to_grpc_events = [], grpc_spans_in_progress = [], grpc_events = []\<rparr>"

definition uprobe_tonic_server_serve ::
  "probe_config \<Rightarrow> 'sc bpf_env \<Rightarrow> pt_regs \<Rightarrow> 'sc tonic_maps \<Rightarrow> int \<times> 'sc tonic_maps" where
  "uprobe_tonic_server_serve cfg env ctx s =
     (let grpcReq = \<lparr>grpc_start_time = bpf_ktime_get_ns env, grpc_end_time = 0,
                      grpc_service = replicate MAX_PATH_SIZE 0,
                      grpc_method = replicate MAX_METHOD_SIZE 0,
                      grpc_status_code = 0, grpc_sc = generate_span_context env\<rparr>;
          self_ptr = get_argument ctx 1
      in if self_ptr = 0 then (0, s)
         else
           let s1 = s\<lparr>context_to_grpc_events :=
                       snd (bpf_map_update_elem MAX_CONCURRENT (context_to_grpc_events s)
                              self_ptr grpcReq)\<rparr>;
               s2 = s1\<lparr>grpc_spans_in_progress :=
                       snd (bpf_map_update_elem (spans_max_entries cfg) (grpc_spans_in_progress s1)
                              self_ptr (grpc_sc grpcReq))\<rparr>
           in (0, s2))"

definition uprobe_tonic_server_serve_return ::
  "'sc bpf_env \<Rightarrow> pt_regs \<Rightarrow> 'sc tonic_maps \<Rightarrow> int \<times> 'sc tonic_maps" where
  "uprobe_tonic_server_serve_return env ctx s =
     (let self_ptr = get_argument_by_stack (user_memory env) ctx 1
      in if self_ptr = 0 then (0, s)
         else
           case bpf_map_lookup_elem (context_to_grpc_events s) self_ptr of
             None \<Rightarrow> (0, s)
           | Some grpcReq_ptr \<Rightarrow>
               let grpcReq = grpcReq_ptr\<lparr>grpc_end_time := bpf_ktime_get_ns env\<rparr>;
                   s1 = s\<lparr>grpc_events := grpc_events s @ [grpcReq]\<rparr>;
                   s2 = s1\<lparr>context_to_grpc_events :=
                           snd (bpf_map_delete_elem (context_to_grpc_events s1) self_ptr)\<rparr>;
                   s3 = s2\<lparr>grpc_spans_in_progress :=
                           snd (bpf_map_delete_elem (grpc_spans_in_progress s2) self_ptr)\<rparr>
               in (0, s3))"

definition uprobe_tonic_client_call ::
  "probe_config \<Rightarrow> 'sc bpf_env \<Rightarrow> pt_regs \<Rightarrow> 'sc tonic_maps \<Rightarrow> int \<times> 'sc tonic_maps" where
  "uprobe_tonic_client_call cfg env ctx s =
     (let grpcReq = \<lparr>grpc_start_time = bpf_ktime_get_ns env, grpc_end_time = 0,
                      grpc_service = replicate MAX_PATH_SIZE 0,
                      grpc_method = replicate MAX_METHOD_SIZE 0,
                      grpc_status_code = 0, grpc_sc = generate_span_context env\<rparr>;
          self_ptr = get_argument ctx 1
      in if self_ptr = 0 then (0, s)
         else
           let service_ptr = probe_read_u64 (user_memory env) (self_ptr + service_ptr_pos cfg);
               grpcReq =
                 (if service_ptr \<noteq> 0 then
                    let service_len = probe_read_u64 (user_memory env)
                                        (self_ptr + service_ptr_pos cfg + 8);
                        service_size = of_nat MAX_PATH_SIZE;
                        service_size = (if service_size < service_len then service_size
                                        else service_len)
                    in grpcReq\<lparr>grpc_service :=
                         probe_read_into (user_memory env) (grpc_service grpcReq)
                           (unat service_size) service_ptr\<rparr>
                  else grpcReq);
               method_ptr = probe_read_u64 (user_memory env) (self_ptr + method_ptr_pos cfg);
               grpcReq =
                 (if method_ptr \<noteq> 0 then
                    let method_len = probe_read_u64 (user_memory env)
                                       (self_ptr + method_ptr_pos cfg + 8);
                        method_size = of_nat MAX_METHOD_SIZE;
                        method_size = (if method_size < method_len then method_size
                                       else method_len)
                    in grpcReq\<lparr>grpc_method :=
                         probe_read_into (user_memory env) (grpc_method grpcReq)
                           (unat method_size) method_ptr\<rparr>
                  else grpcReq);
               s1 = s\<lparr>context_to_grpc_events :=
                       snd (bpf_map_update_elem MAX_CONCURRENT (context_to_grpc_events s)
                              self_ptr grpcReq)\<rparr>;
               s2 = s1\<lparr>grpc_spans_in_progress :=
                       snd (bpf_map_update_elem (spans_max_entries cfg) (grpc_spans_in_progress s1)
                              self_ptr (grpc_sc grpcReq))\<rparr>
           in (0, s2))"

definition uprobe_tonic_client_call_return ::
  "'sc bpf_env \<Rightarrow> pt_regs \<Rightarrow> 'sc tonic_maps \<Rightarrow> int \<times> 'sc tonic_maps" where
  "uprobe_tonic_client_call_return env ctx s =
     (let self_ptr = get_argument_by_stack (user_memory env) ctx 1
      in if self_ptr = 0 then (0, s)
         else
           case bpf_map_lookup_elem (context_to_grpc_events s) self_ptr of
             None \<Rightarrow> (0, s)
           | Some grpcReq_ptr \<Rightarrow>
               let grpcReq = grpcReq_ptr\<lparr>grpc_end_time := bpf_ktime_get_ns env\<rparr>;
                   s1 = s\<lparr>grpc_events := grpc_events s @ [grpcReq]\<rparr>;
                   s2 = s1\<lparr>context_to_grpc_events :=
                           snd (bpf_map_delete_elem (context_to_grpc_events s1) self_ptr)\<rparr>;
                   s3 = s2\<lparr>grpc_spans_in_progress :=
                           snd (bpf_map_delete_elem (grpc_spans_in_progress s2) self_ptr)\<rparr>
               in (0, s3))"

section \<open>Executions\<close>

text \<open>
  An execution of one program is a sequence of probe invocations, each with its own
  environment and registers, from the empty maps. Invocations are taken one after the
  other: the interleaving of two probes that run at the same time on two CPUs is not
  modelled.
\<close>

datatype hyper_probe =
  Hyper_serve_connection | Hyper_serve_connection_return | Hyper_request_method | Hyper_request_uri

datatype tonic_probe =
  Tonic_server_serve | Tonic_server_serve_return | Tonic_client_call | Tonic_client_call_return

type_synonym 'sc hyper_call = "hyper_probe \<times> 'sc bpf_env \<times> pt_regs"
type_synonym 'sc tonic_call = "tonic_probe \<times> 'sc bpf_env \<times> pt_regs"

fun hyper_probe_run ::
  "probe_config \<Rightarrow> 'sc hyper_call \<Rightarrow> 'sc hyper_maps \<Rightarrow> int \<times> 'sc hyper_maps" where
  "hyper_probe_run cfg (Hyper_serve_connection, env, ctx) s = uprobe_hyper_serve_connection cfg env ctx s"
| "hyper_probe_run cfg (Hyper_serve_connection_return, env, ctx) s = uprobe_hyper_serve_connection_return env ctx s"
| "hyper_probe_run cfg (Hyper_request_method, env, ctx) s = uprobe_hyper_request_method cfg env ctx s"
| "hyper_probe_run cfg (Hyper_request_uri, env, ctx) s = uprobe_hyper_request_uri cfg env ctx s"

fun tonic_probe_run ::
  "probe_config \<Rightarrow> 'sc tonic_call \<Rightarrow> 'sc tonic_maps \<Rightarrow> int \<times> 'sc tonic_maps" where
  "tonic_probe_run cfg (Tonic_server_serve, env, ctx) s = uprobe_tonic_server_serve cfg env ctx s"
| "tonic_probe_run cfg (Tonic_server_serve_return, env, ctx) s = uprobe_tonic_server_serve_return env ctx s"
| "tonic_probe_run cfg (Tonic_client_call, env, ctx) s = uprobe_tonic_client_call cfg env ctx s"
| "tonic_probe_run cfg (Tonic_client_call_return, env, ctx) s = uprobe_tonic_client_call_return env ctx s"

definition hyper_exec :: "probe_config \<Rightarrow> 'sc hyper_call list \<Rightarrow> 'sc hyper_maps \<Rightarrow> 'sc hyper_maps" where
  "hyper_exec cfg calls s = foldl (\<lambda>s c. snd (hyper_probe_run cfg c s)) s calls"

definition tonic_exec :: "probe_config \<Rightarrow> 'sc tonic_call list \<Rightarrow> 'sc tonic_maps \<Rightarrow> 'sc tonic_maps" where
  "tonic_exec cfg calls s = foldl (\<lambda>s c. snd (tonic_probe_run cfg c s)) s calls"

text \<open>
  The identity key a call works on: an entry or enrichment probe takes it from the first
  argument register, a return probe reads it from the stack.
\<close>

fun hyper_key :: "'sc hyper_call \<Rightarrow> ptr" where
  "hyper_key (Hyper_serve_connection_return, env, ctx) = get_argument_by_stack (user_memory env) ctx 1"
| "hyper_key (p, env, ctx) = get_argument ctx 1"

fun tonic_key :: "'sc tonic_call \<Rightarrow> ptr" where
  "tonic_key (Tonic_server_serve_return, env, ctx) = get_argument_by_stack (user_memory env) ctx 1"
| "tonic_key (Tonic_client_call_return, env, ctx) = get_argument_by_stack (user_memory env) ctx 1"
| "tonic_key (p, env, ctx) = get_argument ctx 1"

definition hyper_is_return :: "'sc hyper_call \<Rightarrow> bool" where
  "hyper_is_return c = (fst c = Hyper_serve_connection_return)"

definition tonic_is_return :: "'sc tonic_call \<Rightarrow> bool" where
  "tonic_is_return c = (fst c = Tonic_server_serve_return \<or> fst c = Tonic_client_call_return)"

definition tonic_is_entry :: "'sc tonic_call \<Rightarrow> bool" where
  "tonic_is_entry c = (fst c = Tonic_server_serve \<or> fst c = Tonic_client_call)"

text \<open>
  The clock of an execution: \<^verbatim>\<open>bpf_ktime_get_ns\<close> counts the nanoseconds since boot, so
  its readings are taken to be positive and to grow from one invocation to the next.
  \<open>clock_after t calls\<close> says so for the readings of \<open>calls\<close>, all after \<open>t\<close>.
\<close>

fun clock_after :: "u64 \<Rightarrow> ('p \<times> 'sc bpf_env \<times> pt_regs) list \<Rightarrow> bool" where
  "clock_after t [] = True"
| "clock_after t ((p, env, ctx) # calls) =
     (t < bpf_ktime_get_ns env \<and> clock_after (bpf_ktime_get_ns env) calls)"

text \<open>
  A request on key \<open>k\<close> that \<open>entry\<close> opens may be opened again before it is closed: an
  entry probe that finds \<open>k\<close> in the table overwrites the record. The entry whose record a
  return probe finds after the invocations \<open>mid\<close> is the last entry probe on \<open>k\<close> among
  \<open>entry\<close> and \<open>mid\<close>.
\<close>

definition hyper_opener :: "ptr \<Rightarrow> 'sc hyper_call \<Rightarrow> 'sc hyper_call list \<Rightarrow> 'sc hyper_call" where
  "hyper_opener k entry mid =
     last (entry # filter (\<lambda>c. fst c = Hyper_serve_connection \<and> hyper_key c = k) mid)"

definition tonic_opener :: "ptr \<Rightarrow> 'sc tonic_call \<Rightarrow> 'sc tonic_call list \<Rightarrow> 'sc tonic_call" where
  "tonic_opener k entry mid =
     last (entry # filter (\<lambda>c. tonic_is_entry c \<and> tonic_key c = k) mid)"

section \<open>Invariants of executions\<close>

text \<open>
  \<open>clock_last t calls\<close> is the last clock reading of \<open>calls\<close> (or \<open>t\<close> when there is none).
  The predicates below hold of the maps after every execution; the theorems further down
  spell out what they give.
\<close>

definition hyper_wf :: "'sc hyper_maps \<Rightarrow> bool" where
  "hyper_wf s \<longleftrightarrow>
     distinct (map fst (context_to_http_events s)) \<and>
     length (context_to_http_events s) \<le> MAX_CONCURRENT \<and>
     (\<forall>k r. map_of (context_to_http_events s) k = Some r \<longrightarrow>
        k \<noteq> 0 \<and> http_end_time r = 0 \<and> http_status_code r = 0 \<and>
        length (http_method r) = MAX_METHOD_SIZE \<and> length (http_path r) = MAX_PATH_SIZE) \<and>
     (\<forall>r \<in> set (events s). http_status_code r = 0)"

fun clock_last :: "u64 \<Rightarrow> ('p \<times> 'sc bpf_env \<times> pt_regs) list \<Rightarrow> u64" where
  "clock_last t [] = t"
| "clock_last t ((p, env, ctx) # calls) = clock_last (bpf_ktime_get_ns env) calls"

definition hyper_timed :: "u64 \<Rightarrow> 'sc hyper_maps \<Rightarrow> bool" where
  "hyper_timed t s \<longleftrightarrow>
     (\<forall>k r. map_of (context_to_http_events s) k = Some r \<longrightarrow>
        http_start_time r \<noteq> 0 \<and> http_start_time r \<le> t) \<and>
     (\<forall>r \<in> set (events s). http_start_time r \<noteq> 0 \<and> http_start_time r < http_end_time r)"


definition tonic_wf :: "'sc tonic_maps \<Rightarrow> bool" where
  "tonic_wf s \<longleftrightarrow>
     distinct (map fst (context_to_grpc_events s)) \<and>
     length (context_to_grpc_events s) \<le> MAX_CONCURRENT \<and>
     (\<forall>k r. map_of (context_to_grpc_events s) k = Some r \<longrightarrow>
        k \<noteq> 0 \<and> grpc_end_time r = 0 \<and> grpc_status_code r = 0 \<and>
        length (grpc_service r) = MAX_PATH_SIZE \<and> length (grpc_method r) = MAX_METHOD_SIZE) \<and>
     (\<forall>r \<in> set (grpc_events s). grpc_status_code r = 0)"

definition tonic_timed :: "u64 \<Rightarrow> 'sc tonic_maps \<Rightarrow> bool" where
  "tonic_timed t s \<longleftrightarrow>
     (\<forall>k r. map_of (context_to_grpc_events s) k = Some r \<longrightarrow>
        grpc_start_time r \<noteq> 0 \<and> grpc_start_time r \<le> t) \<and>
     (\<forall>r \<in> set (grpc_events s). grpc_start_time r \<noteq> 0 \<and> grpc_start_time r < grpc_end_time r)"


section \<open>Field extraction, as the specification words it\<close>

text \<open>
  The specification's side of a field extraction with capacity \<open>cap\<close>, reported length
  \<open>len\<close> and source \<open>src\<close>, from the field \<open>old\<close> to the field \<open>new\<close>: the field keeps its
  capacity; the number \<open>n\<close> of bytes copied is the smaller of \<open>cap\<close> and \<open>len\<close>; when the \<open>n\<close>
  source bytes can be read they are the first \<open>n\<close> bytes of the field; the bytes of the
  field after them are untouched; and when \<open>len\<close> is more than \<open>cap\<close> the field is the
  first \<open>cap\<close> bytes of the source.
\<close>

definition clamped_copy :: "nat \<Rightarrow> memory \<Rightarrow> u64 \<Rightarrow> ptr \<Rightarrow> u8 list \<Rightarrow> u8 list \<Rightarrow> bool" where
  "clamped_copy cap mem len src old new \<longleftrightarrow>
     length new = cap \<and>
     min cap (unat len) \<le> cap \<and>
     drop (min cap (unat len)) new = drop (min cap (unat len)) old \<and>
     (\<forall>bs. bpf_probe_read mem (min cap (unat len)) src = Some bs
        \<longrightarrow> length bs = min cap (unat len) \<and> new = bs @ drop (min cap (unat len)) old) \<and>
     (cap < unat len \<longrightarrow> (\<forall>bs. bpf_probe_read mem cap src = Some bs \<longrightarrow> new = bs))"

section \<open>Concrete inputs\<close>

text \<open>
  Inputs on which the theorems are instantiated: a memory made of byte regions, registers
  with a first argument and a stack pointer, and the calls of two requests. The HTTP
  request is the scenario of the specification: key \<open>0xAA\<close>, method \<open>GET\<close>, path
  \<open>/healthz\<close>, closed 2,000,000 ns after it was opened.
\<close>

definition mem_of :: "(ptr \<times> u8 list) list \<Rightarrow> memory" where
  "mem_of regions a =
     (case find (\<lambda>(base, bs). unat (a - base) < length bs) regions of
        None \<Rightarrow> None
      | Some (base, bs) \<Rightarrow> Some (bs ! unat (a - base)))"

definition regs_of :: "ptr \<Rightarrow> u64 \<Rightarrow> pt_regs" where
  "regs_of arg1 sp = \<lparr>PT_REGS_PARM1 = arg1, PT_REGS_PARM2 = 0, PT_REGS_PARM3 = 0,
     PT_REGS_PARM4 = 0, PT_REGS_PARM5 = 0, PT_REGS_PARM6 = 0, PT_REGS_SP = sp, PT_REGS_RC = 0\<rparr>"

definition env_of :: "u64 \<Rightarrow> 'sc \<Rightarrow> (ptr \<times> u8 list) list \<Rightarrow> 'sc bpf_env" where
  "env_of t sc regions =
     \<lparr>bpf_ktime_get_ns = t, generate_span_context = sc, user_memory = mem_of regions\<rparr>"

definition test_config :: probe_config where
  "test_config = \<lparr>spans_max_entries = 50, method_ptr_pos = 0x10, uri_ptr_pos = 0x20,
     path_ptr_pos = 0x08, service_ptr_pos = 0x30\<rparr>"

definition healthz_memory :: "(ptr \<times> u8 list) list" where
  "healthz_memory =
     [(0xBA, [0x00, 0x20, 0, 0, 0, 0, 0, 0] @ [3, 0, 0, 0, 0, 0, 0, 0]),
      (0xCA, [0x00, 0x30, 0, 0, 0, 0, 0, 0]),
      (0x2000, ascii ''GET''),
      (0x3008, [0x00, 0x40, 0, 0, 0, 0, 0, 0] @ [8, 0, 0, 0, 0, 0, 0, 0]),
      (0x4000, ascii ''/healthz''),
      (0x7008, [0xAA, 0, 0, 0, 0, 0, 0, 0])]"

definition healthz_entry :: "nat hyper_call" where
  "healthz_entry = (Hyper_serve_connection, env_of 1000 7 healthz_memory, regs_of 0xAA 0x6000)"

definition healthz_method :: "nat hyper_call" where
  "healthz_method = (Hyper_request_method, env_of 1100 0 healthz_memory, regs_of 0xAA 0x6100)"

definition healthz_uri :: "nat hyper_call" where
  "healthz_uri = (Hyper_request_uri, env_of 1200 0 healthz_memory, regs_of 0xAA 0x6200)"

definition healthz_return :: "nat hyper_call" where
  "healthz_return =
     (Hyper_serve_connection_return, env_of 2001000 0 healthz_memory, regs_of 0 0x7000)"

definition healthz_reentry :: "nat hyper_call" where
  "healthz_reentry = (Hyper_serve_connection, env_of 1500 8 healthz_memory, regs_of 0xAA 0x6000)"

definition grpc_memory :: "(ptr \<times> u8 list) list" where
  "grpc_memory =
     [(0xEB, [0x00, 0x50, 0, 0, 0, 0, 0, 0] @ [7, 0, 0, 0, 0, 0, 0, 0]),
      (0xCB, [0x00, 0x51, 0, 0, 0, 0, 0, 0] @ [8, 0, 0, 0, 0, 0, 0, 0]),
      (0x5000, ascii ''pkg.Svc''),
      (0x5100, ascii ''SayHello''),
      (0x7108, [0xBB, 0, 0, 0, 0, 0, 0, 0])]"

definition grpc_client_entry :: "nat tonic_call" where
  "grpc_client_entry = (Tonic_client_call, env_of 5000 9 grpc_memory, regs_of 0xBB 0x6000)"

definition grpc_client_return :: "nat tonic_call" where
  "grpc_client_return = (Tonic_client_call_return, env_of 6000 0 grpc_memory, regs_of 0 0x7100)"

definition grpc_server_entry :: "nat tonic_call" where
  "grpc_server_entry = (Tonic_server_serve, env_of 5000 9 grpc_memory, regs_of 0xBB 0x6000)"

definition grpc_server_return :: "nat tonic_call" where
  "grpc_server_return = (Tonic_server_serve_return, env_of 6000 0 grpc_memory, regs_of 0 0x7100)"

definition full_http_table :: "(ptr, nat http_request_t) bpf_hash" where
  "full_http_table =
     map (\<lambda>i. (of_nat i,
            \<lparr>http_start_time = 1000, http_end_time = 0,
              http_method = replicate MAX_METHOD_SIZE 0, http_path = replicate MAX_PATH_SIZE 0,
              http_status_code = 0, http_sc = i\<rparr>)) [1..<51]"

definition full_grpc_table :: "(ptr, nat grpc_request_t) bpf_hash" where
  "full_grpc_table =
     map (\<lambda>i. (of_nat i,
            \<lparr>grpc_start_time = 1000, grpc_end_time = 0,
              grpc_service = replicate MAX_PATH_SIZE 0, grpc_method = replicate MAX_METHOD_SIZE 0,
              grpc_status_code = 0, grpc_sc = i\<rparr>)) [1..<51]"

definition null_service_memory :: "(ptr \<times> u8 list) list" where
  "null_service_memory =
     [(0xEB, [0, 0, 0, 0, 0, 0, 0, 0] @ [7, 0, 0, 0, 0, 0, 0, 0]),
      (0xCB, [0x00, 0x51, 0, 0, 0, 0, 0, 0] @ [8, 0, 0, 0, 0, 0, 0, 0]),
      (0x5100, ascii ''SayHello'')]"

definition long_method_memory :: "(ptr \<times> u8 list) list" where
  "long_method_memory =
     [(0xBA, [0x00, 0x20, 0, 0, 0, 0, 0, 0] @ [20, 0, 0, 0, 0, 0, 0, 0]),
      (0x2000, ascii ''ABCDEFGHIJKLMNOPQRST'')]"

definition grpc_server_return_status :: "nat tonic_call" where
  "grpc_server_return_status =
     (Tonic_server_serve_return, env_of 6000 0 grpc_memory, (regs_of 0 0x7100)\<lparr>PT_REGS_RC := 2\<rparr>)"

section \<open>The rendering loop is correct\<close>

lemma word_succ_unat: "i < (sz :: 'a::len word) \<Longrightarrow> unat (i + 1) = Suc (unat i)"
  by unat_arith

lemma take_update_pair:
  "Suc n < length xs \<Longrightarrow> take (Suc (Suc n)) (xs[n := a, Suc n := b]) = take n xs @ [a, b]"
  by (simp add: take_Suc_conv_app_nth)

lemma bytes_to_hex_loop_correct:
  "unat sz \<le> length bytes \<Longrightarrow> 2 * unat sz \<le> length out \<Longrightarrow> unat sz \<le> 2 ^ 31 \<Longrightarrow> i \<le> sz \<Longrightarrow>
   bytes_to_hex_loop bytes sz i out =
     Some (take (2 * unat i) out
           @ concat (map hex_pair (take (unat sz - unat i) (drop (unat i) bytes)))
           @ drop (2 * unat sz) out)"
proof (induction bytes sz i out rule: bytes_to_hex_loop.induct)
  case (1 bytes sz i out)
  show ?case
  proof (cases "i < sz")
    case False
    with "1.prems" have "i = sz" by simp
    then show ?thesis by (simp add: bytes_to_hex_loop.simps [of bytes sz sz out])
  next
    case True
    then have lt: "unat i < unat sz" by (simp add: word_less_nat_alt)
    with "1.prems" have small: "unat i < 2 ^ 31" by simp
    have e0: "unat (i * 2) = 2 * unat i" using small by (simp add: unat_word_ariths)
    have e1: "unat (i * 2 + 1) = Suc (2 * unat i)" using small by (simp add: unat_word_ariths)
    have s: "unat (i + 1) = Suc (unat i)" using True by (rule word_succ_unat)
    have le: "i + 1 \<le> sz" using True by (simp add: inc_le)
    have inb: "unat i < length bytes" "Suc (2 * unat i) < length out"
      using lt "1.prems" by simp_all
    let ?out = "out[unat (i * 2) := hex_char (drop_bit 4 (bytes ! unat i) AND 0x0F),
                     unat (i * 2 + 1) := hex_char ((bytes ! unat i) AND 0x0F)]"
    have IH: "bytes_to_hex_loop bytes sz (i + 1) ?out =
       Some (take (2 * unat (i + 1)) ?out
           @ concat (map hex_pair (take (unat sz - unat (i + 1)) (drop (unat (i + 1)) bytes)))
           @ drop (2 * unat sz) ?out)"
      using True inb e0 e1 "1.prems" le
      by (intro "1.IH") simp_all
    have t: "take (2 * unat (i + 1)) ?out = take (2 * unat i) out @ hex_pair (bytes ! unat i)"
      using inb by (simp add: s e0 e1 take_update_pair hex_pair_def)
    have d: "drop (2 * unat sz) ?out = drop (2 * unat sz) out"
      using lt by (simp add: e0 e1)
    have b: "take (unat sz - unat i) (drop (unat i) bytes)
           = bytes ! unat i # take (unat sz - unat (i + 1)) (drop (unat (i + 1)) bytes)"
      using lt inb
      by (simp add: s Cons_nth_drop_Suc take_Suc_Cons [symmetric] Suc_diff_Suc del: take_Suc_Cons)
    have "bytes_to_hex_loop bytes sz i out = bytes_to_hex_loop bytes sz (i + 1) ?out"
      using True inb by (subst bytes_to_hex_loop.simps) (simp add: e0 e1)
    then show ?thesis
      by (simp only: IH t d b) simp
  qed
qed

lemma unat_low_nibble: "unat ((w :: u8) AND 0x0F) = unat w mod 16"
proof -
  have "(w AND 0x0F) = take_bit 4 w"
    by (simp add: take_bit_eq_mask mask_eq_exp_minus_1)
  then show ?thesis
    by (simp add: take_bit_eq_mod unat_mod)
qed

lemma unat_high_nibble: "unat (drop_bit 4 (w :: u8) AND 0x0F) = unat w div 16"
proof -
  have "unat w < 256"
    using unsigned_less [of w, where 'a = nat] by simp
  then show ?thesis
    by (simp add: unat_low_nibble drop_bit_eq_div unat_div)
qed

lemma hex_char_digit:
  assumes "n < 16"
  shows "hex_char (of_nat n) = of_char (lowercase_hex_digits ! n)"
proof -
  have "list_all (\<lambda>k. hex_char (of_nat k) = of_char (lowercase_hex_digits ! k)) [0..<16]"
    by code_simp
  moreover from assms have "n \<in> set [0..<16]"
    by simp
  ultimately show ?thesis
    unfolding list_all_iff by blast
qed

lemma hex_char_nibble:
  assumes "unat v < 16"
  shows "hex_char v = of_char (lowercase_hex_digits ! unat v)"
proof -
  have "hex_char (of_nat (unat v)) = of_char (lowercase_hex_digits ! unat v)"
    using assms by (rule hex_char_digit)
  then show ?thesis
    by simp
qed

lemma hex_pair_lowercase: "hex_pair b = ascii (lowercase_hex [b])"
proof -
  have b: "unat b < 256"
    using unsigned_less [of b, where 'a = nat] by simp
  have "unat b div 16 < 16"
    using b by simp
  then have "unat (drop_bit 4 b AND 0x0F) < 16"
    by (simp only: unat_high_nibble)
  then have "hex_char (drop_bit 4 b AND 0x0F)
      = of_char (lowercase_hex_digits ! unat (drop_bit 4 b AND 0x0F))"
    by (rule hex_char_nibble)
  then have hi: "hex_char (drop_bit 4 b AND 0x0F)
      = of_char (lowercase_hex_digits ! (unat b div 16))"
    by (simp only: unat_high_nibble)
  have "unat b mod 16 < 16"
    by simp
  then have "unat (b AND 0x0F) < 16"
    by (simp only: unat_low_nibble)
  then have "hex_char (b AND 0x0F) = of_char (lowercase_hex_digits ! unat (b AND 0x0F))"
    by (rule hex_char_nibble)
  then have lo: "hex_char (b AND 0x0F) = of_char (lowercase_hex_digits ! (unat b mod 16))"
    by (simp only: unat_low_nibble)
  show ?thesis
    unfolding hex_pair_def ascii_def lowercase_hex_def hi lo by simp
qed

lemma concat_hex_pair: "concat (map hex_pair bs) = ascii (lowercase_hex bs)"
proof (induction bs)
  case Nil
  show ?case by (simp add: ascii_def lowercase_hex_def)
next
  case (Cons b bs)
  have "lowercase_hex (b # bs) = lowercase_hex [b] @ lowercase_hex bs"
    by (simp add: lowercase_hex_def)
  with Cons show ?case
    by (simp add: hex_pair_lowercase ascii_def)
qed

lemma length_lowercase_hex: "length (lowercase_hex bs) = 2 * length bs"
  by (induction bs) (simp_all add: lowercase_hex_def)

lemma set_lowercase_hex: "set (lowercase_hex bs) \<subseteq> set lowercase_hex_digits"
proof -
  have "lowercase_hex_digits ! n \<in> set lowercase_hex_digits" if "n < 16" for n
    using that by (intro nth_mem) (simp add: lowercase_hex_digits_def)
  moreover have "unat b div 16 < 16" for b :: u8
    using unsigned_less [of b, where 'a = nat] by (simp add: less_mult_imp_div_less)
  ultimately show ?thesis
    by (auto simp: lowercase_hex_def)
qed

text \<open>
  C6. For a buffer of \<open>sz\<close> bytes (\<open>sz\<close> at most \<open>2^31\<close>, so that the \<^verbatim>\<open>u32\<close> index
  \<^verbatim>\<open>i * 2 + 1\<close> does not wrap) and an output buffer with room for \<open>2 * sz\<close> characters,
  \<^verbatim>\<open>bytes_to_hex_string\<close> returns, and it writes exactly two characters per input byte at
  the front of the output buffer: the lowercase hexadecimal digit of the high nibble, then
  that of the low nibble. Every character written is one of \<open>0123456789abcdef\<close>; the rest
  of the output buffer is untouched. A 16-byte trace identifier gives 32 characters and an
  8-byte span identifier gives 16.
\<close>

theorem bytes_to_hex_string_lowercase:
  assumes "unat sz \<le> length bytes" and "2 * unat sz \<le> length out" and "unat sz \<le> 2 ^ 31"
  shows "bytes_to_hex_string bytes sz out
           = Some (ascii (lowercase_hex (take (unat sz) bytes)) @ drop (2 * unat sz) out)
       \<and> length (lowercase_hex (take (unat sz) bytes)) = 2 * unat sz
       \<and> set (lowercase_hex (take (unat sz) bytes)) \<subseteq> set ''0123456789abcdef''
       \<and> (unat sz = TRACE_ID_SIZE \<longrightarrow>
            length (lowercase_hex (take (unat sz) bytes)) = TRACE_ID_STRING_SIZE)
       \<and> (unat sz = SPAN_ID_SIZE \<longrightarrow>
            length (lowercase_hex (take (unat sz) bytes)) = SPAN_ID_STRING_SIZE)"
proof -
  have "bytes_to_hex_string bytes sz out
      = Some (concat (map hex_pair (take (unat sz) bytes)) @ drop (2 * unat sz) out)"
    using assms bytes_to_hex_loop_correct [of sz bytes out 0]
    by (simp add: bytes_to_hex_string_def)
  moreover have "length (lowercase_hex (take (unat sz) bytes)) = 2 * unat sz"
    using assms(1) by (simp add: length_lowercase_hex)
  moreover have "set (lowercase_hex (take (unat sz) bytes)) \<subseteq> set ''0123456789abcdef''"
    using set_lowercase_hex [of "take (unat sz) bytes"] by (simp add: lowercase_hex_digits_def)
  ultimately show ?thesis
    by (auto simp: concat_hex_pair TRACE_ID_SIZE_def SPAN_ID_SIZE_def
        TRACE_ID_STRING_SIZE_def SPAN_ID_STRING_SIZE_def)
qed

theorem bytes_to_hex_string_lowercase_witness:
  "bytes_to_hex_string [0xde, 0xad, 0xbe, 0xef, 0x00, 0x01, 0x7f, 0xa5] 8 (replicate 16 0)
     = Some (ascii ''deadbeef00017fa5'')"
  using bytes_to_hex_string_lowercase
    [of 8 "[0xde, 0xad, 0xbe, 0xef, 0x00, 0x01, 0x7f, 0xa5]" "replicate 16 0"]
  by (simp add: lowercase_hex_def lowercase_hex_digits_def)

section \<open>Facts about the maps and the HTTP probes\<close>

lemma map_of_update_elem:
  "map_of (snd (bpf_map_update_elem n m k v)) =
     (if map_of m k \<noteq> None \<or> length m < n then (map_of m)(k \<mapsto> v) else map_of m)"
  by (simp add: bpf_map_update_elem_def update_conv')

lemma map_of_delete_elem: "map_of (snd (bpf_map_delete_elem m k)) = (map_of m)(k := None)"
  by (auto simp: bpf_map_delete_elem_def delete_conv' fun_eq_iff)

lemma snd_delete_elem: "snd (bpf_map_delete_elem m k) = AList.delete k m"
  by (simp add: bpf_map_delete_elem_def map_of_eq_None_iff)

lemma length_alist_update:
  "length (AList.update k v m) = (if map_of m k = None then Suc (length m) else length m)"
  by (induction m) auto

lemma length_alist_delete:
  "distinct (map fst m) \<Longrightarrow>
   length (AList.delete k m) = (if map_of m k = None then length m else length m - 1)"
proof (induction m)
  case Nil
  then show ?case by simp
next
  case (Cons p m)
  obtain a b where p: "p = (a, b)" by (cases p)
  show ?case
  proof (cases "a = k")
    case True
    with Cons.prems p have "k \<notin> fst ` set m" by simp
    then have "AList.delete k m = m" by simp
    with True p show ?thesis by simp
  next
    case False
    have "map_of m k \<noteq> None \<Longrightarrow> 0 < length m"
      by (cases m) simp_all
    with False p Cons show ?thesis
      by (auto simp del: length_greater_0_conv)
  qed
qed


lemma length_update_elem:
  "length (snd (bpf_map_update_elem n m k v)) =
     (if map_of m k = None \<and> length m < n then Suc (length m) else length m)"
  by (simp add: bpf_map_update_elem_def length_alist_update)

lemma length_delete_elem:
  "distinct (map fst m) \<Longrightarrow>
   length (snd (bpf_map_delete_elem m k)) = (if map_of m k = None then length m else length m - 1)"
  by (cases "map_of m k") (simp_all add: bpf_map_delete_elem_def length_alist_delete)

lemma distinct_update_elem:
  "distinct (map fst m) \<Longrightarrow> distinct (map fst (snd (bpf_map_update_elem n m k v)))"
  by (simp add: bpf_map_update_elem_def distinct_update)

lemma distinct_delete_elem:
  "distinct (map fst m) \<Longrightarrow> distinct (map fst (snd (bpf_map_delete_elem m k)))"
  by (simp add: bpf_map_delete_elem_def distinct_delete)

lemma length_probe_read:
  "bpf_probe_read mem n src = Some bs \<Longrightarrow> length bs = n"
proof -
  have "those xs = Some bs \<Longrightarrow> length bs = length xs" for xs :: "u8 option list"
    by (induction xs arbitrary: bs) (auto split: option.splits)
  then show "bpf_probe_read mem n src = Some bs \<Longrightarrow> length bs = n"
    by (fastforce simp: bpf_probe_read_def)
qed

lemma length_probe_read_into:
  "n \<le> length dst \<Longrightarrow> length (probe_read_into mem dst n src) = length dst"
  by (auto simp: probe_read_into_def dest: length_probe_read split: option.splits)

lemma clamp_u64:
  "unat (if (of_nat c :: u64) < len then of_nat c else len) = min c (unat len)" if "c < 2 ^ 64"
proof -
  have "unat (of_nat c :: u64) = c"
    using that by (simp add: unat_of_nat)
  then show ?thesis
    by (auto simp: word_less_nat_alt)
qed

lemma method_size_le:
  "unat (if (of_nat MAX_METHOD_SIZE :: u64) < len then of_nat MAX_METHOD_SIZE else len)
     = min MAX_METHOD_SIZE (unat len)"
  by (rule clamp_u64) (simp add: MAX_METHOD_SIZE_def)

lemma path_size_le:
  "unat (if (of_nat MAX_PATH_SIZE :: u64) < len then of_nat MAX_PATH_SIZE else len)
     = min MAX_PATH_SIZE (unat len)"
  by (rule clamp_u64) (simp add: MAX_PATH_SIZE_def)

lemma unat_MAX_METHOD_SIZE: "unat (of_nat MAX_METHOD_SIZE :: u64) = MAX_METHOD_SIZE"
  by (simp add: MAX_METHOD_SIZE_def)

lemma unat_MAX_PATH_SIZE: "unat (of_nat MAX_PATH_SIZE :: u64) = MAX_PATH_SIZE"
  by (simp add: MAX_PATH_SIZE_def)

lemma not_less_MAX_METHOD_SIZE:
  "\<not> (of_nat MAX_METHOD_SIZE :: u64) < len \<Longrightarrow> unat len \<le> MAX_METHOD_SIZE"
  by (simp add: word_less_nat_alt unat_MAX_METHOD_SIZE)

lemma not_less_MAX_PATH_SIZE:
  "\<not> (of_nat MAX_PATH_SIZE :: u64) < len \<Longrightarrow> unat len \<le> MAX_PATH_SIZE"
  by (simp add: word_less_nat_alt unat_MAX_PATH_SIZE)

lemma hyper_wf_init: "hyper_wf hyper_init"
  by (simp add: hyper_wf_def hyper_init_def)

lemma hyper_wf_serve_connection:
  "hyper_wf s \<Longrightarrow> hyper_wf (snd (uprobe_hyper_serve_connection cfg env ctx s))"
  unfolding hyper_wf_def uprobe_hyper_serve_connection_def Let_def
  by (auto simp: map_of_update_elem length_update_elem distinct_update_elem
      simp del: map_of_eq_Some_iff split: if_splits)

lemma hyper_wf_serve_connection_return:
  "hyper_wf s \<Longrightarrow> hyper_wf (snd (uprobe_hyper_serve_connection_return env ctx s))"
  unfolding hyper_wf_def uprobe_hyper_serve_connection_return_def Let_def bpf_map_lookup_elem_def
  by (auto simp: map_of_delete_elem length_delete_elem distinct_delete_elem
      simp del: map_of_eq_Some_iff split: if_splits option.splits)

lemma hyper_wf_request_method:
  "hyper_wf s \<Longrightarrow> hyper_wf (snd (uprobe_hyper_request_method cfg env ctx s))"
  unfolding hyper_wf_def uprobe_hyper_request_method_def Let_def bpf_map_lookup_elem_def
  by (auto simp: map_of_update_elem length_update_elem distinct_update_elem
      length_probe_read_into unat_MAX_METHOD_SIZE not_less_MAX_METHOD_SIZE
      simp del: map_of_eq_Some_iff split: if_splits option.splits)

lemma hyper_wf_request_uri:
  "hyper_wf s \<Longrightarrow> hyper_wf (snd (uprobe_hyper_request_uri cfg env ctx s))"
  unfolding hyper_wf_def uprobe_hyper_request_uri_def Let_def bpf_map_lookup_elem_def
  by (auto simp: map_of_update_elem length_update_elem distinct_update_elem
      length_probe_read_into unat_MAX_PATH_SIZE not_less_MAX_PATH_SIZE
      simp del: map_of_eq_Some_iff split: if_splits option.splits)

lemma hyper_wf_step: "hyper_wf s \<Longrightarrow> hyper_wf (snd (hyper_probe_run cfg c s))"
proof -
  obtain p env ctx where c: "c = (p, env, ctx)" by (cases c)
  show "hyper_wf s \<Longrightarrow> hyper_wf (snd (hyper_probe_run cfg c s))"
    unfolding c
    by (cases p)
      (simp_all add: hyper_wf_serve_connection hyper_wf_serve_connection_return
        hyper_wf_request_method hyper_wf_request_uri)
qed

lemma hyper_wf_exec: "hyper_wf s \<Longrightarrow> hyper_wf (hyper_exec cfg calls s)"
  unfolding hyper_exec_def
  by (induction calls arbitrary: s) (simp_all add: hyper_wf_step)

lemma clock_after_append:
  "clock_after t (xs @ ys) \<longleftrightarrow> clock_after t xs \<and> clock_after (clock_last t xs) ys"
  by (induction t xs rule: clock_after.induct) simp_all

lemma clock_last_append: "clock_last t (xs @ ys) = clock_last (clock_last t xs) ys"
  by (induction t xs rule: clock_last.induct) simp_all

lemma clock_after_le: "clock_after t calls \<Longrightarrow> t \<le> clock_last t calls"
proof (induction t calls rule: clock_after.induct)
  case (1 t)
  then show ?case by simp
next
  case (2 t p env ctx calls)
  then show ?case by (auto intro: order_trans less_imp_le)
qed

lemma hyper_timed_init: "hyper_timed t hyper_init"
  by (simp add: hyper_timed_def hyper_init_def)

lemma hyper_timed_step:
  assumes "hyper_timed t s" and "t < bpf_ktime_get_ns env"
  shows "hyper_timed (bpf_ktime_get_ns env) (snd (hyper_probe_run cfg (p, env, ctx) s))"
proof -
  have le: "\<And>x. x \<le> t \<Longrightarrow> x \<le> bpf_ktime_get_ns env" "\<And>x. x \<le> t \<Longrightarrow> x < bpf_ktime_get_ns env"
    using assms(2) by auto
  have nz: "bpf_ktime_get_ns env \<noteq> 0"
    using assms(2) by unat_arith
  show ?thesis
    using assms(1) le nz
    unfolding hyper_timed_def
    by (cases p)
      (auto simp: uprobe_hyper_serve_connection_def uprobe_hyper_serve_connection_return_def
        uprobe_hyper_request_method_def uprobe_hyper_request_uri_def Let_def
        bpf_map_lookup_elem_def map_of_update_elem map_of_delete_elem
        simp del: map_of_eq_Some_iff split: if_splits option.splits)
qed

lemma hyper_timed_exec:
  "hyper_timed t s \<Longrightarrow> clock_after t calls \<Longrightarrow>
   hyper_timed (clock_last t calls) (hyper_exec cfg calls s)"
proof (induction t calls arbitrary: s rule: clock_after.induct)
  case (1 t)
  then show ?case by (simp add: hyper_exec_def)
next
  case (2 t p env ctx calls)
  from "2.prems" have "t < bpf_ktime_get_ns env"
    by simp
  with "2.prems"(1) have "hyper_timed (bpf_ktime_get_ns env) (snd (hyper_probe_run cfg (p, env, ctx) s))"
    by (rule hyper_timed_step)
  with "2.prems" "2.IH" show ?case
    by (simp add: hyper_exec_def)
qed

lemma hyper_exec_append:
  "hyper_exec cfg (xs @ ys) s = hyper_exec cfg ys (hyper_exec cfg xs s)"
  by (simp add: hyper_exec_def)

lemma hyper_exec_single: "hyper_exec cfg [c] s = snd (hyper_probe_run cfg c s)"
  by (simp add: hyper_exec_def)

lemma hyper_return_present:
  assumes "get_argument_by_stack (user_memory env) ctx 1 = k" and "k \<noteq> 0"
    and "map_of (context_to_http_events s) k = Some r"
  shows "uprobe_hyper_serve_connection_return env ctx s =
    (0, s\<lparr>events := events s @ [r\<lparr>http_end_time := bpf_ktime_get_ns env\<rparr>],
          context_to_http_events := AList.delete k (context_to_http_events s),
          http_spans_in_progress := AList.delete k (http_spans_in_progress s)\<rparr>)"
  using assms
  by (simp add: uprobe_hyper_serve_connection_return_def Let_def bpf_map_lookup_elem_def
      snd_delete_elem)

lemma hyper_entry_no_emission:
  "events (snd (uprobe_hyper_serve_connection cfg env ctx s)) = events s"
  by (simp add: uprobe_hyper_serve_connection_def Let_def)


lemma map_of_pos_length: "map_of m k = Some v \<Longrightarrow> 0 < length m"
  by (cases m) simp_all




lemma hyper_absent_key:
  assumes "fst c \<noteq> Hyper_serve_connection"
    and "bpf_map_lookup_elem (context_to_http_events s) (hyper_key c) = None"
  shows "hyper_probe_run cfg c s = (0, s)"
proof -
  obtain p env ctx where c: "c = (p, env, ctx)" by (cases c)
  show ?thesis
    using assms unfolding c
    by (cases p)
      (simp_all add: uprobe_hyper_serve_connection_return_def uprobe_hyper_request_method_def
        uprobe_hyper_request_uri_def Let_def)
qed

lemma hyper_return_twice:
  assumes "hyper_is_return c" and "hyper_is_return c'" and "hyper_key c' = hyper_key c"
  shows "hyper_probe_run cfg c' (snd (hyper_probe_run cfg c s)) = (0, snd (hyper_probe_run cfg c s))"
proof -
  obtain env ctx where c: "c = (Hyper_serve_connection_return, env, ctx)"
    using assms(1) by (cases c) (auto simp: hyper_is_return_def)
  obtain env' ctx' where c': "c' = (Hyper_serve_connection_return, env', ctx')"
    using assms(2) by (cases c') (auto simp: hyper_is_return_def)
  show ?thesis
    using assms(3) unfolding c c'
    by (simp add: uprobe_hyper_serve_connection_return_def Let_def bpf_map_lookup_elem_def
        map_of_delete_elem split: option.split)
qed

lemma hyper_keys_from_entries_step:
  assumes "map_of (context_to_http_events (snd (hyper_probe_run cfg c s))) k \<noteq> None"
  shows "map_of (context_to_http_events s) k \<noteq> None
         \<or> (fst c = Hyper_serve_connection \<and> hyper_key c = k)"
proof -
  obtain p env ctx where c: "c = (p, env, ctx)" by (cases c)
  show ?thesis
    using assms unfolding c
    by (cases p)
      (auto simp: uprobe_hyper_serve_connection_def uprobe_hyper_serve_connection_return_def
        uprobe_hyper_request_method_def uprobe_hyper_request_uri_def Let_def
        bpf_map_lookup_elem_def map_of_update_elem map_of_delete_elem
        simp del: map_of_eq_Some_iff split: if_splits option.splits)
qed

lemma hyper_never_entered:
  assumes "\<forall>c \<in> set calls. \<not> (fst c = Hyper_serve_connection \<and> hyper_key c = k)"
    and "map_of (context_to_http_events s) k = None"
  shows "map_of (context_to_http_events (hyper_exec cfg calls s)) k = None"
  using assms
proof (induction calls arbitrary: s)
  case Nil
  then show ?case by (simp add: hyper_exec_def)
next
  case (Cons c calls)
  from Cons.prems have "map_of (context_to_http_events (snd (hyper_probe_run cfg c s))) k = None"
    using hyper_keys_from_entries_step [of cfg c s k] by (cases "map_of (context_to_http_events (snd (hyper_probe_run cfg c s))) k") auto
  with Cons show ?case
    by (simp add: hyper_exec_def)
qed

lemma hyper_full_table_entry:
  assumes "length (context_to_http_events s) = MAX_CONCURRENT"
    and "bpf_map_lookup_elem (context_to_http_events s) (get_argument ctx 1) = None"
  shows "fst (uprobe_hyper_serve_connection cfg env ctx s) = 0
     \<and> context_to_http_events (snd (uprobe_hyper_serve_connection cfg env ctx s))
         = context_to_http_events s
     \<and> events (snd (uprobe_hyper_serve_connection cfg env ctx s)) = events s"
  using assms
  by (simp add: uprobe_hyper_serve_connection_def Let_def bpf_map_lookup_elem_def
      bpf_map_update_elem_def)

lemma update_elem_full:
  "length m = n \<Longrightarrow> map_of m k = None \<Longrightarrow> bpf_map_update_elem n m k v = (- E2BIG, m)"
  by (simp add: bpf_map_update_elem_def)

lemma hyper_step_emission:
  "events (snd (hyper_probe_run cfg c s)) = events s
   \<or> (hyper_is_return c \<and>
       (\<exists>r. map_of (context_to_http_events s) (hyper_key c) = Some r
          \<and> events (snd (hyper_probe_run cfg c s))
              = events s @ [r\<lparr>http_end_time := bpf_ktime_get_ns (fst (snd c))\<rparr>]
          \<and> map_of (context_to_http_events (snd (hyper_probe_run cfg c s))) (hyper_key c) = None))"
proof -
  obtain p env ctx where c: "c = (p, env, ctx)" by (cases c)
  show ?thesis
    unfolding c hyper_is_return_def
    by (cases p)
      (auto simp: uprobe_hyper_serve_connection_def uprobe_hyper_serve_connection_return_def
        uprobe_hyper_request_method_def uprobe_hyper_request_uri_def Let_def
        bpf_map_lookup_elem_def map_of_delete_elem
        simp del: map_of_eq_Some_iff split: if_splits option.splits)
qed

lemma probe_read_into_Some:
  "bpf_probe_read mem n src = Some bs \<Longrightarrow> probe_read_into mem dst n src = bs @ drop n dst"
  by (simp add: probe_read_into_def)

lemma probe_read_into_whole:
  "bpf_probe_read mem n src = Some bs \<Longrightarrow> length dst = n \<Longrightarrow> probe_read_into mem dst n src = bs"
  by (simp add: probe_read_into_def)

lemma hyper_request_method_extracts:
  assumes "get_argument ctx 1 = k" and "k \<noteq> 0"
    and "probe_read_u64 (user_memory env) (k + method_ptr_pos cfg) = p" and "p \<noteq> 0"
    and "bpf_map_lookup_elem (context_to_http_events s) k = Some r"
    and "probe_read_u64 (user_memory env) (k + method_ptr_pos cfg + 8) = len"
  shows "bpf_map_lookup_elem
           (context_to_http_events (snd (uprobe_hyper_request_method cfg env ctx s))) k
       = Some (r\<lparr>http_method := probe_read_into (user_memory env) (http_method r)
                                   (min MAX_METHOD_SIZE (unat len)) p\<rparr>)"
  using assms
  by (simp add: uprobe_hyper_request_method_def Let_def bpf_map_lookup_elem_def
      map_of_update_elem method_size_le)

lemma hyper_request_uri_extracts:
  assumes "get_argument ctx 1 = k" and "k \<noteq> 0"
    and "probe_read_u64 (user_memory env) (k + uri_ptr_pos cfg) = u" and "u \<noteq> 0"
    and "bpf_map_lookup_elem (context_to_http_events s) k = Some r"
    and "probe_read_u64 (user_memory env) (u + path_ptr_pos cfg) = p"
    and "probe_read_u64 (user_memory env) (u + path_ptr_pos cfg + 8) = len"
  shows "bpf_map_lookup_elem
           (context_to_http_events (snd (uprobe_hyper_request_uri cfg env ctx s))) k
       = Some (r\<lparr>http_path := probe_read_into (user_memory env) (http_path r)
                                 (min MAX_PATH_SIZE (unat len)) p\<rparr>)"
  using assms
  by (simp add: uprobe_hyper_request_uri_def Let_def bpf_map_lookup_elem_def
      map_of_update_elem path_size_le)

section \<open>Facts about the gRPC probes\<close>

lemmas tonic_probe_defs =
  uprobe_tonic_server_serve_def uprobe_tonic_server_serve_return_def
  uprobe_tonic_client_call_def uprobe_tonic_client_call_return_def

lemma tonic_wf_init: "tonic_wf tonic_init"
  by (simp add: tonic_wf_def tonic_init_def)

lemma tonic_wf_step: "tonic_wf s \<Longrightarrow> tonic_wf (snd (tonic_probe_run cfg c s))"
proof -
  obtain p env ctx where c: "c = (p, env, ctx)" by (cases c)
  show "tonic_wf s \<Longrightarrow> tonic_wf (snd (tonic_probe_run cfg c s))"
    unfolding c tonic_wf_def
    by (cases p)
      (auto simp: tonic_probe_defs Let_def bpf_map_lookup_elem_def
        map_of_update_elem length_update_elem distinct_update_elem
        map_of_delete_elem length_delete_elem distinct_delete_elem
        length_probe_read_into unat_MAX_METHOD_SIZE not_less_MAX_METHOD_SIZE
        unat_MAX_PATH_SIZE not_less_MAX_PATH_SIZE
        simp del: map_of_eq_Some_iff split: if_splits option.splits)
qed

lemma tonic_wf_exec: "tonic_wf s \<Longrightarrow> tonic_wf (tonic_exec cfg calls s)"
  unfolding tonic_exec_def
  by (induction calls arbitrary: s) (simp_all add: tonic_wf_step)

lemma tonic_timed_init: "tonic_timed t tonic_init"
  by (simp add: tonic_timed_def tonic_init_def)

lemma tonic_timed_step:
  assumes "tonic_timed t s" and "t < bpf_ktime_get_ns env"
  shows "tonic_timed (bpf_ktime_get_ns env) (snd (tonic_probe_run cfg (p, env, ctx) s))"
proof -
  have le: "\<And>x. x \<le> t \<Longrightarrow> x \<le> bpf_ktime_get_ns env" "\<And>x. x \<le> t \<Longrightarrow> x < bpf_ktime_get_ns env"
    using assms(2) by auto
  have nz: "bpf_ktime_get_ns env \<noteq> 0"
    using assms(2) by unat_arith
  show ?thesis
    using assms(1) le nz
    unfolding tonic_timed_def
    by (cases p)
      (auto simp: tonic_probe_defs Let_def
        bpf_map_lookup_elem_def map_of_update_elem map_of_delete_elem
        simp del: map_of_eq_Some_iff split: if_splits option.splits)
qed

lemma tonic_timed_exec:
  "tonic_timed t s \<Longrightarrow> clock_after t calls \<Longrightarrow>
   tonic_timed (clock_last t calls) (tonic_exec cfg calls s)"
proof (induction t calls arbitrary: s rule: clock_after.induct)
  case (1 t)
  then show ?case by (simp add: tonic_exec_def)
next
  case (2 t p env ctx calls)
  from "2.prems" have "t < bpf_ktime_get_ns env"
    by simp
  with "2.prems"(1) have "tonic_timed (bpf_ktime_get_ns env) (snd (tonic_probe_run cfg (p, env, ctx) s))"
    by (rule tonic_timed_step)
  with "2.prems" "2.IH" show ?case
    by (simp add: tonic_exec_def)
qed

lemma tonic_other_key_step:
  assumes "tonic_key c \<noteq> k"
  shows "map_of (context_to_grpc_events (snd (tonic_probe_run cfg c s))) k
         = map_of (context_to_grpc_events s) k"
proof -
  obtain p env ctx where c: "c = (p, env, ctx)" by (cases c)
  show ?thesis
    using assms unfolding c
    by (cases p)
      (auto simp: tonic_probe_defs Let_def
        bpf_map_lookup_elem_def map_of_update_elem map_of_delete_elem
        simp del: map_of_eq_Some_iff split: if_splits option.splits)
qed

lemma tonic_other_key_exec:
  "\<forall>c \<in> set calls. tonic_key c \<noteq> k \<Longrightarrow>
   map_of (context_to_grpc_events (tonic_exec cfg calls s)) k = map_of (context_to_grpc_events s) k"
proof (induction calls arbitrary: s)
  case Nil
  then show ?case by (simp add: tonic_exec_def)
next
  case (Cons c calls)
  then show ?case
    by (simp add: tonic_exec_def tonic_other_key_step)
qed

lemma tonic_return_present:
  assumes "tonic_is_return c" and "tonic_key c = k" and "k \<noteq> 0"
    and "map_of (context_to_grpc_events s) k = Some r"
  shows "tonic_probe_run cfg c s =
    (0, s\<lparr>grpc_events := grpc_events s @ [r\<lparr>grpc_end_time := bpf_ktime_get_ns (fst (snd c))\<rparr>],
          context_to_grpc_events := AList.delete k (context_to_grpc_events s),
          grpc_spans_in_progress := AList.delete k (grpc_spans_in_progress s)\<rparr>)"
proof -
  obtain p env ctx where c: "c = (p, env, ctx)" by (cases c)
  show ?thesis
    using assms unfolding c tonic_is_return_def
    by (cases p)
      (simp_all add: tonic_probe_defs Let_def bpf_map_lookup_elem_def snd_delete_elem)
qed

lemma tonic_entry_no_emission:
  "tonic_is_entry c \<Longrightarrow> grpc_events (snd (tonic_probe_run cfg c s)) = grpc_events s"
proof -
  obtain p env ctx where c: "c = (p, env, ctx)" by (cases c)
  show "tonic_is_entry c \<Longrightarrow> grpc_events (snd (tonic_probe_run cfg c s)) = grpc_events s"
    unfolding c tonic_is_entry_def
    by (cases p) (simp_all add: tonic_probe_defs Let_def)
qed

lemma tonic_exec_single: "tonic_exec cfg [c] s = snd (tonic_probe_run cfg c s)"
  by (simp add: tonic_exec_def)





lemma tonic_absent_key:
  assumes "\<not> tonic_is_entry c"
    and "bpf_map_lookup_elem (context_to_grpc_events s) (tonic_key c) = None"
  shows "tonic_probe_run cfg c s = (0, s)"
proof -
  obtain p env ctx where c: "c = (p, env, ctx)" by (cases c)
  show ?thesis
    using assms unfolding c
    by (cases p) (simp_all add: tonic_probe_defs tonic_is_entry_def Let_def)
qed

lemma tonic_return_twice:
  assumes "tonic_is_return c" and "tonic_is_return c'" and "tonic_key c' = tonic_key c"
  shows "tonic_probe_run cfg c' (snd (tonic_probe_run cfg c s)) = (0, snd (tonic_probe_run cfg c s))"
proof -
  obtain p env ctx where c: "c = (p, env, ctx)" by (cases c)
  obtain p' env' ctx' where c': "c' = (p', env', ctx')" by (cases c')
  show ?thesis
    using assms unfolding c c' tonic_is_return_def
    by (cases p; cases p')
      (simp_all add: tonic_probe_defs Let_def bpf_map_lookup_elem_def
        map_of_delete_elem split: option.split)
qed

lemma tonic_keys_from_entries_step:
  assumes "map_of (context_to_grpc_events (snd (tonic_probe_run cfg c s))) k \<noteq> None"
  shows "map_of (context_to_grpc_events s) k \<noteq> None \<or> (tonic_is_entry c \<and> tonic_key c = k)"
proof -
  obtain p env ctx where c: "c = (p, env, ctx)" by (cases c)
  show ?thesis
    using assms unfolding c tonic_is_entry_def
    by (cases p)
      (auto simp: tonic_probe_defs Let_def
        bpf_map_lookup_elem_def map_of_update_elem map_of_delete_elem
        simp del: map_of_eq_Some_iff split: if_splits option.splits)
qed

lemma tonic_never_entered:
  assumes "\<forall>c \<in> set calls. \<not> (tonic_is_entry c \<and> tonic_key c = k)"
    and "map_of (context_to_grpc_events s) k = None"
  shows "map_of (context_to_grpc_events (tonic_exec cfg calls s)) k = None"
  using assms
proof (induction calls arbitrary: s)
  case Nil
  then show ?case by (simp add: tonic_exec_def)
next
  case (Cons c calls)
  from Cons.prems have "map_of (context_to_grpc_events (snd (tonic_probe_run cfg c s))) k = None"
    using tonic_keys_from_entries_step [of cfg c s k]
    by (cases "map_of (context_to_grpc_events (snd (tonic_probe_run cfg c s))) k") auto
  with Cons show ?case
    by (simp add: tonic_exec_def)
qed

lemma tonic_full_table_entry:
  assumes "tonic_is_entry c"
    and "length (context_to_grpc_events s) = MAX_CONCURRENT"
    and "bpf_map_lookup_elem (context_to_grpc_events s) (tonic_key c) = None"
  shows "fst (tonic_probe_run cfg c s) = 0
     \<and> context_to_grpc_events (snd (tonic_probe_run cfg c s)) = context_to_grpc_events s
     \<and> grpc_events (snd (tonic_probe_run cfg c s)) = grpc_events s"
proof -
  obtain p env ctx where c: "c = (p, env, ctx)" by (cases c)
  show ?thesis
    using assms unfolding c tonic_is_entry_def
    by (cases p)
      (simp_all add: uprobe_tonic_server_serve_def uprobe_tonic_client_call_def Let_def
        bpf_map_lookup_elem_def bpf_map_update_elem_def)
qed

lemma tonic_step_emission:
  "grpc_events (snd (tonic_probe_run cfg c s)) = grpc_events s
   \<or> (tonic_is_return c \<and>
       (\<exists>r. map_of (context_to_grpc_events s) (tonic_key c) = Some r
          \<and> grpc_events (snd (tonic_probe_run cfg c s))
              = grpc_events s @ [r\<lparr>grpc_end_time := bpf_ktime_get_ns (fst (snd c))\<rparr>]
          \<and> map_of (context_to_grpc_events (snd (tonic_probe_run cfg c s))) (tonic_key c) = None))"
proof -
  obtain p env ctx where c: "c = (p, env, ctx)" by (cases c)
  show ?thesis
    unfolding c tonic_is_return_def
    by (cases p)
      (auto simp: tonic_probe_defs Let_def
        bpf_map_lookup_elem_def map_of_delete_elem
        simp del: map_of_eq_Some_iff split: if_splits option.splits)
qed

lemma tonic_client_call_record:
  assumes "get_argument ctx 1 = k" and "k \<noteq> 0"
    and "map_of (context_to_grpc_events s) k \<noteq> None
         \<or> length (context_to_grpc_events s) < MAX_CONCURRENT"
    and "probe_read_u64 (user_memory env) (k + service_ptr_pos cfg) = sp"
    and "probe_read_u64 (user_memory env) (k + service_ptr_pos cfg + 8) = slen"
    and "probe_read_u64 (user_memory env) (k + method_ptr_pos cfg) = mp"
    and "probe_read_u64 (user_memory env) (k + method_ptr_pos cfg + 8) = mlen"
  shows "bpf_map_lookup_elem
           (context_to_grpc_events (snd (uprobe_tonic_client_call cfg env ctx s))) k
       = Some \<lparr>grpc_start_time = bpf_ktime_get_ns env, grpc_end_time = 0,
               grpc_service =
                 (if sp = 0 then replicate MAX_PATH_SIZE 0
                  else probe_read_into (user_memory env) (replicate MAX_PATH_SIZE 0)
                         (min MAX_PATH_SIZE (unat slen)) sp),
               grpc_method =
                 (if mp = 0 then replicate MAX_METHOD_SIZE 0
                  else probe_read_into (user_memory env) (replicate MAX_METHOD_SIZE 0)
                         (min MAX_METHOD_SIZE (unat mlen)) mp),
               grpc_status_code = 0, grpc_sc = generate_span_context env\<rparr>"
  using assms
  by (simp add: uprobe_tonic_client_call_def Let_def bpf_map_lookup_elem_def
      map_of_update_elem method_size_le path_size_le)

lemma tonic_server_serve_inserted:
  assumes "tonic_wf s"
    and "bpf_map_lookup_elem
           (context_to_grpc_events (snd (uprobe_tonic_server_serve cfg env ctx s)))
           (get_argument ctx 1) \<noteq> None"
  shows "get_argument ctx 1 \<noteq> 0 \<and>
     bpf_map_lookup_elem
           (context_to_grpc_events (snd (uprobe_tonic_server_serve cfg env ctx s)))
           (get_argument ctx 1)
       = Some \<lparr>grpc_start_time = bpf_ktime_get_ns env, grpc_end_time = 0,
               grpc_service = replicate MAX_PATH_SIZE 0,
               grpc_method = replicate MAX_METHOD_SIZE 0,
               grpc_status_code = 0, grpc_sc = generate_span_context env\<rparr>"
  using assms unfolding tonic_wf_def
  by (auto simp: uprobe_tonic_server_serve_def Let_def bpf_map_lookup_elem_def
      map_of_update_elem simp del: map_of_eq_Some_iff split: if_splits)

lemma tonic_server_pair_record:
  assumes entry: "entry = (Tonic_server_serve, env0, ctx0)" "get_argument ctx0 1 = k"
    and inserted: "bpf_map_lookup_elem
        (context_to_grpc_events (tonic_exec cfg (pre @ [entry]) tonic_init)) k \<noteq> None"
    and mid: "\<forall>c \<in> set mid. tonic_key c \<noteq> k"
    and ret: "ret = (Tonic_server_serve_return, env1, ctx1)"
      "get_argument_by_stack (user_memory env1) ctx1 1 = k"
  shows "grpc_events (tonic_exec cfg (pre @ entry # mid @ [ret]) tonic_init)
       = grpc_events (tonic_exec cfg (pre @ entry # mid) tonic_init)
         @ [\<lparr>grpc_start_time = bpf_ktime_get_ns env0, grpc_end_time = bpf_ktime_get_ns env1,
              grpc_service = replicate MAX_PATH_SIZE 0,
              grpc_method = replicate MAX_METHOD_SIZE 0,
              grpc_status_code = 0, grpc_sc = generate_span_context env0\<rparr>]"
proof -
  define s0 where "s0 = tonic_exec cfg pre tonic_init"
  define s1 where "s1 = tonic_exec cfg (pre @ [entry]) tonic_init"
  define sm where "sm = tonic_exec cfg (pre @ entry # mid) tonic_init"
  let ?fresh = "\<lparr>grpc_start_time = bpf_ktime_get_ns env0, grpc_end_time = 0,
               grpc_service = replicate MAX_PATH_SIZE 0,
               grpc_method = replicate MAX_METHOD_SIZE 0,
               grpc_status_code = 0, grpc_sc = generate_span_context env0\<rparr>"
  have wf: "tonic_wf s0"
    unfolding s0_def by (intro tonic_wf_exec tonic_wf_init)
  have s1: "s1 = snd (uprobe_tonic_server_serve cfg env0 ctx0 s0)"
    by (simp add: s1_def s0_def tonic_exec_def entry(1))
  have ins: "k \<noteq> 0 \<and> bpf_map_lookup_elem (context_to_grpc_events s1) k = Some ?fresh"
    using tonic_server_serve_inserted [OF wf, of cfg env0 ctx0] inserted
    unfolding s1 [symmetric] entry(2) s1_def by simp
  have sm: "sm = tonic_exec cfg mid s1"
    by (simp add: sm_def s1_def tonic_exec_def)
  have rec: "map_of (context_to_grpc_events sm) k = Some ?fresh"
    unfolding sm using ins mid
    by (simp add: tonic_other_key_exec bpf_map_lookup_elem_def)
  have r: "tonic_is_return ret" "tonic_key ret = k"
    using ret by (simp_all add: tonic_is_return_def)
  have run: "tonic_exec cfg (pre @ entry # mid @ [ret]) tonic_init
      = snd (tonic_probe_run cfg ret sm)"
    by (simp add: sm_def tonic_exec_def)
  have k: "k \<noteq> 0"
    using ins by simp
  show ?thesis
    unfolding run sm_def [symmetric] tonic_return_present [OF r k rec]
    by (simp add: ret(1))
qed

subsection \<open>An entry probe and the return probe that closes it\<close>

lemma hyper_entry_record:
  assumes "fst c = Hyper_serve_connection" and "hyper_key c = k" and "k \<noteq> 0"
    and "bpf_map_lookup_elem (context_to_http_events s) k \<noteq> None
         \<or> length (context_to_http_events s) < MAX_CONCURRENT"
  shows "\<exists>r. map_of (context_to_http_events (snd (hyper_probe_run cfg c s))) k = Some r
     \<and> http_start_time r = bpf_ktime_get_ns (fst (snd c))
     \<and> http_sc r = generate_span_context (fst (snd c))
     \<and> events (snd (hyper_probe_run cfg c s)) = events s"
proof -
  obtain env ctx where c: "c = (Hyper_serve_connection, env, ctx)"
    using assms(1) by (cases c) auto
  show ?thesis
    using assms(2-4) unfolding c
    by (auto simp: uprobe_hyper_serve_connection_def Let_def bpf_map_lookup_elem_def
        map_of_update_elem simp del: map_of_eq_Some_iff)
qed

lemma tonic_entry_record:
  assumes "tonic_is_entry c" and "tonic_key c = k" and "k \<noteq> 0"
    and "bpf_map_lookup_elem (context_to_grpc_events s) k \<noteq> None
         \<or> length (context_to_grpc_events s) < MAX_CONCURRENT"
  shows "\<exists>r. map_of (context_to_grpc_events (snd (tonic_probe_run cfg c s))) k = Some r
     \<and> grpc_start_time r = bpf_ktime_get_ns (fst (snd c))
     \<and> grpc_sc r = generate_span_context (fst (snd c))
     \<and> grpc_events (snd (tonic_probe_run cfg c s)) = grpc_events s"
proof -
  obtain p env ctx where c: "c = (p, env, ctx)" by (cases c)
  show ?thesis
    using assms unfolding c tonic_is_entry_def
    by (cases p)
      (auto simp: uprobe_tonic_server_serve_def uprobe_tonic_client_call_def Let_def
        bpf_map_lookup_elem_def map_of_update_elem simp del: map_of_eq_Some_iff)
qed

lemma hyper_opened_step:
  assumes "map_of (context_to_http_events s) k = Some r" and "k \<noteq> 0"
    and "\<not> (hyper_is_return c \<and> hyper_key c = k)"
  shows "\<exists>r'. map_of (context_to_http_events (snd (hyper_probe_run cfg c s))) k = Some r'
     \<and> (if fst c = Hyper_serve_connection \<and> hyper_key c = k
         then http_start_time r' = bpf_ktime_get_ns (fst (snd c))
              \<and> http_sc r' = generate_span_context (fst (snd c))
         else http_start_time r' = http_start_time r \<and> http_sc r' = http_sc r)"
proof -
  obtain p env ctx where c: "c = (p, env, ctx)" by (cases c)
  show ?thesis
    using assms unfolding c hyper_is_return_def
    by (cases p)
      (auto simp: uprobe_hyper_serve_connection_def uprobe_hyper_serve_connection_return_def
        uprobe_hyper_request_method_def uprobe_hyper_request_uri_def Let_def
        bpf_map_lookup_elem_def map_of_update_elem map_of_delete_elem
        simp del: map_of_eq_Some_iff split: if_splits option.splits)
qed

lemma tonic_opened_step:
  assumes "map_of (context_to_grpc_events s) k = Some r" and "k \<noteq> 0"
    and "\<not> (tonic_is_return c \<and> tonic_key c = k)"
  shows "\<exists>r'. map_of (context_to_grpc_events (snd (tonic_probe_run cfg c s))) k = Some r'
     \<and> (if tonic_is_entry c \<and> tonic_key c = k
         then grpc_start_time r' = bpf_ktime_get_ns (fst (snd c))
              \<and> grpc_sc r' = generate_span_context (fst (snd c))
         else grpc_start_time r' = grpc_start_time r \<and> grpc_sc r' = grpc_sc r)"
proof -
  obtain p env ctx where c: "c = (p, env, ctx)" by (cases c)
  show ?thesis
    using assms unfolding c tonic_is_return_def tonic_is_entry_def
    by (cases p)
      (auto simp: tonic_probe_defs Let_def
        bpf_map_lookup_elem_def map_of_update_elem map_of_delete_elem
        simp del: map_of_eq_Some_iff split: if_splits option.splits)
qed

lemma hyper_opened_exec:
  assumes "map_of (context_to_http_events s) k = Some r" and "k \<noteq> 0"
    and "http_start_time r = bpf_ktime_get_ns (fst (snd e))"
    and "http_sc r = generate_span_context (fst (snd e))"
    and "\<forall>c \<in> set mid. \<not> (hyper_is_return c \<and> hyper_key c = k)"
  shows "\<exists>r'. map_of (context_to_http_events (hyper_exec cfg mid s)) k = Some r'
     \<and> http_start_time r' = bpf_ktime_get_ns (fst (snd (hyper_opener k e mid)))
     \<and> http_sc r' = generate_span_context (fst (snd (hyper_opener k e mid)))"
  using assms
proof (induction mid arbitrary: s r e)
  case Nil
  then show ?case by (simp add: hyper_exec_def hyper_opener_def)
next
  case (Cons c mid)
  from Cons.prems have nr: "\<not> (hyper_is_return c \<and> hyper_key c = k)"
    and rest: "\<forall>c \<in> set mid. \<not> (hyper_is_return c \<and> hyper_key c = k)"
    by simp_all
  from hyper_opened_step [OF Cons.prems(1,2) nr, of cfg]
  obtain r' where r': "map_of (context_to_http_events (snd (hyper_probe_run cfg c s))) k = Some r'"
    and v: "if fst c = Hyper_serve_connection \<and> hyper_key c = k
         then http_start_time r' = bpf_ktime_get_ns (fst (snd c))
              \<and> http_sc r' = generate_span_context (fst (snd c))
         else http_start_time r' = http_start_time r \<and> http_sc r' = http_sc r"
    by blast
  have ex: "hyper_exec cfg (c # mid) s = hyper_exec cfg mid (snd (hyper_probe_run cfg c s))"
    by (simp add: hyper_exec_def)
  show ?case
  proof (cases "fst c = Hyper_serve_connection \<and> hyper_key c = k")
    case True
    then have o: "hyper_opener k e (c # mid) = hyper_opener k c mid"
      by (simp add: hyper_opener_def)
    from True v have "http_start_time r' = bpf_ktime_get_ns (fst (snd c))"
      "http_sc r' = generate_span_context (fst (snd c))"
      by simp_all
    from Cons.IH [OF r' Cons.prems(2) this rest] show ?thesis
      unfolding ex o .
  next
    case False
    then have o: "hyper_opener k e (c # mid) = hyper_opener k e mid"
      by (auto simp: hyper_opener_def)
    from False v Cons.prems(3,4) have "http_start_time r' = bpf_ktime_get_ns (fst (snd e))"
      "http_sc r' = generate_span_context (fst (snd e))"
      by simp_all
    from Cons.IH [OF r' Cons.prems(2) this rest] show ?thesis
      unfolding ex o .
  qed
qed

lemma tonic_opened_exec:
  assumes "map_of (context_to_grpc_events s) k = Some r" and "k \<noteq> 0"
    and "grpc_start_time r = bpf_ktime_get_ns (fst (snd e))"
    and "grpc_sc r = generate_span_context (fst (snd e))"
    and "\<forall>c \<in> set mid. \<not> (tonic_is_return c \<and> tonic_key c = k)"
  shows "\<exists>r'. map_of (context_to_grpc_events (tonic_exec cfg mid s)) k = Some r'
     \<and> grpc_start_time r' = bpf_ktime_get_ns (fst (snd (tonic_opener k e mid)))
     \<and> grpc_sc r' = generate_span_context (fst (snd (tonic_opener k e mid)))"
  using assms
proof (induction mid arbitrary: s r e)
  case Nil
  then show ?case by (simp add: tonic_exec_def tonic_opener_def)
next
  case (Cons c mid)
  from Cons.prems have nr: "\<not> (tonic_is_return c \<and> tonic_key c = k)"
    and rest: "\<forall>c \<in> set mid. \<not> (tonic_is_return c \<and> tonic_key c = k)"
    by simp_all
  from tonic_opened_step [OF Cons.prems(1,2) nr, of cfg]
  obtain r' where r': "map_of (context_to_grpc_events (snd (tonic_probe_run cfg c s))) k = Some r'"
    and v: "if tonic_is_entry c \<and> tonic_key c = k
         then grpc_start_time r' = bpf_ktime_get_ns (fst (snd c))
              \<and> grpc_sc r' = generate_span_context (fst (snd c))
         else grpc_start_time r' = grpc_start_time r \<and> grpc_sc r' = grpc_sc r"
    by blast
  have ex: "tonic_exec cfg (c # mid) s = tonic_exec cfg mid (snd (tonic_probe_run cfg c s))"
    by (simp add: tonic_exec_def)
  show ?case
  proof (cases "tonic_is_entry c \<and> tonic_key c = k")
    case True
    then have o: "tonic_opener k e (c # mid) = tonic_opener k c mid"
      by (simp add: tonic_opener_def)
    from True v have "grpc_start_time r' = bpf_ktime_get_ns (fst (snd c))"
      "grpc_sc r' = generate_span_context (fst (snd c))"
      by simp_all
    from Cons.IH [OF r' Cons.prems(2) this rest] show ?thesis
      unfolding ex o .
  next
    case False
    then have o: "tonic_opener k e (c # mid) = tonic_opener k e mid"
      by (auto simp: tonic_opener_def)
    from False v Cons.prems(3,4) have "grpc_start_time r' = bpf_ktime_get_ns (fst (snd e))"
      "grpc_sc r' = generate_span_context (fst (snd e))"
      by simp_all
    from Cons.IH [OF r' Cons.prems(2) this rest] show ?thesis
      unfolding ex o .
  qed
qed

lemma hyper_non_return_no_emission:
  "\<not> hyper_is_return c \<Longrightarrow> events (snd (hyper_probe_run cfg c s)) = events s"
  using hyper_step_emission [of cfg c s] by blast

lemma tonic_non_return_no_emission:
  "\<not> tonic_is_return c \<Longrightarrow> grpc_events (snd (tonic_probe_run cfg c s)) = grpc_events s"
  using tonic_step_emission [of cfg c s] by blast


lemma hyper_pair:
  assumes entry: "fst entry = Hyper_serve_connection" "hyper_key entry = k" "k \<noteq> 0"
    and room: "bpf_map_lookup_elem (context_to_http_events (hyper_exec cfg pre hyper_init)) k \<noteq> None
         \<or> length (context_to_http_events (hyper_exec cfg pre hyper_init)) < MAX_CONCURRENT"
    and mid: "\<forall>c \<in> set mid. \<not> (hyper_is_return c \<and> hyper_key c = k)"
    and ret: "hyper_is_return ret" "hyper_key ret = k"
  shows "\<exists>r. events (hyper_exec cfg (pre @ entry # mid @ [ret]) hyper_init)
             = events (hyper_exec cfg (pre @ entry # mid) hyper_init) @ [r]
          \<and> events (hyper_exec cfg (pre @ [entry]) hyper_init) = events (hyper_exec cfg pre hyper_init)
          \<and> http_start_time r = bpf_ktime_get_ns (fst (snd (hyper_opener k entry mid)))
          \<and> http_sc r = generate_span_context (fst (snd (hyper_opener k entry mid)))
          \<and> http_end_time r = bpf_ktime_get_ns (fst (snd ret))"
proof -
  define s0 where "s0 = hyper_exec cfg pre hyper_init"
  define s1 where "s1 = snd (hyper_probe_run cfg entry s0)"
  define sm where "sm = hyper_exec cfg mid s1"
  from hyper_entry_record [OF entry, of s0 cfg] room
  obtain r1 where r1: "map_of (context_to_http_events s1) k = Some r1"
    "http_start_time r1 = bpf_ktime_get_ns (fst (snd entry))"
    "http_sc r1 = generate_span_context (fst (snd entry))"
    and e1: "events s1 = events s0"
    unfolding s0_def s1_def by blast
  from hyper_opened_exec [OF r1(1) entry(3) r1(2,3) mid, of cfg]
  obtain rm where rm: "map_of (context_to_http_events sm) k = Some rm"
    "http_start_time rm = bpf_ktime_get_ns (fst (snd (hyper_opener k entry mid)))"
    "http_sc rm = generate_span_context (fst (snd (hyper_opener k entry mid)))"
    unfolding sm_def by blast
  obtain env ctx where r: "ret = (Hyper_serve_connection_return, env, ctx)"
    using ret(1) by (cases ret) (auto simp: hyper_is_return_def)
  have key: "get_argument_by_stack (user_memory env) ctx 1 = k"
    using ret(2) by (simp add: r)
  have x1: "hyper_exec cfg (pre @ [entry]) hyper_init = s1"
    by (simp add: s1_def s0_def hyper_exec_def)
  have xm: "hyper_exec cfg (pre @ entry # mid) hyper_init = sm"
    by (simp add: sm_def s1_def s0_def hyper_exec_def)
  have xr: "hyper_exec cfg (pre @ entry # mid @ [ret]) hyper_init
      = snd (uprobe_hyper_serve_connection_return env ctx sm)"
    by (simp add: sm_def s1_def s0_def hyper_exec_def r)
  have "events (snd (uprobe_hyper_serve_connection_return env ctx sm))
      = events sm @ [rm\<lparr>http_end_time := bpf_ktime_get_ns env\<rparr>]"
    unfolding hyper_return_present [OF key entry(3) rm(1)] by simp
  then show ?thesis
    unfolding xr xm x1 using rm(2,3) e1
    by (intro exI [of _ "rm\<lparr>http_end_time := bpf_ktime_get_ns env\<rparr>"])
      (simp add: s0_def r)
qed

lemma tonic_pair:
  assumes entry: "tonic_is_entry entry" "tonic_key entry = k" "k \<noteq> 0"
    and room: "bpf_map_lookup_elem (context_to_grpc_events (tonic_exec cfg pre tonic_init)) k \<noteq> None
         \<or> length (context_to_grpc_events (tonic_exec cfg pre tonic_init)) < MAX_CONCURRENT"
    and mid: "\<forall>c \<in> set mid. \<not> (tonic_is_return c \<and> tonic_key c = k)"
    and ret: "tonic_is_return ret" "tonic_key ret = k"
  shows "\<exists>r. grpc_events (tonic_exec cfg (pre @ entry # mid @ [ret]) tonic_init)
             = grpc_events (tonic_exec cfg (pre @ entry # mid) tonic_init) @ [r]
          \<and> grpc_events (tonic_exec cfg (pre @ [entry]) tonic_init)
             = grpc_events (tonic_exec cfg pre tonic_init)
          \<and> grpc_start_time r = bpf_ktime_get_ns (fst (snd (tonic_opener k entry mid)))
          \<and> grpc_sc r = generate_span_context (fst (snd (tonic_opener k entry mid)))
          \<and> grpc_end_time r = bpf_ktime_get_ns (fst (snd ret))"
proof -
  define s0 where "s0 = tonic_exec cfg pre tonic_init"
  define s1 where "s1 = snd (tonic_probe_run cfg entry s0)"
  define sm where "sm = tonic_exec cfg mid s1"
  from tonic_entry_record [OF entry, of s0 cfg] room
  obtain r1 where r1: "map_of (context_to_grpc_events s1) k = Some r1"
    "grpc_start_time r1 = bpf_ktime_get_ns (fst (snd entry))"
    "grpc_sc r1 = generate_span_context (fst (snd entry))"
    and e1: "grpc_events s1 = grpc_events s0"
    unfolding s0_def s1_def by blast
  from tonic_opened_exec [OF r1(1) entry(3) r1(2,3) mid, of cfg]
  obtain rm where rm: "map_of (context_to_grpc_events sm) k = Some rm"
    "grpc_start_time rm = bpf_ktime_get_ns (fst (snd (tonic_opener k entry mid)))"
    "grpc_sc rm = generate_span_context (fst (snd (tonic_opener k entry mid)))"
    unfolding sm_def by blast
  have x1: "tonic_exec cfg (pre @ [entry]) tonic_init = s1"
    by (simp add: s1_def s0_def tonic_exec_def)
  have xm: "tonic_exec cfg (pre @ entry # mid) tonic_init = sm"
    by (simp add: sm_def s1_def s0_def tonic_exec_def)
  have xr: "tonic_exec cfg (pre @ entry # mid @ [ret]) tonic_init
      = snd (tonic_probe_run cfg ret sm)"
    by (simp add: sm_def s1_def s0_def tonic_exec_def)
  have "grpc_events (snd (tonic_probe_run cfg ret sm))
      = grpc_events sm @ [rm\<lparr>grpc_end_time := bpf_ktime_get_ns (fst (snd ret))\<rparr>]"
    unfolding tonic_return_present [OF ret entry(3) rm(1)] by simp
  then show ?thesis
    unfolding xr xm x1 using rm(2,3) e1
    by (intro exI [of _ "rm\<lparr>grpc_end_time := bpf_ktime_get_ns (fst (snd ret))\<rparr>"])
      (simp add: s0_def)
qed

lemma hyper_between_no_emission:
  assumes "\<forall>c \<in> set mid. \<not> (hyper_is_return c \<and> hyper_key c = k)"
    and "mid = m1 @ c # m2" and "hyper_key c = k"
  shows "events (hyper_exec cfg (pre @ entry # m1 @ [c]) hyper_init)
       = events (hyper_exec cfg (pre @ entry # m1) hyper_init)"
proof -
  from assms have "\<not> hyper_is_return c"
    by auto
  then show ?thesis
    using hyper_non_return_no_emission [of c cfg "hyper_exec cfg (pre @ entry # m1) hyper_init"]
    by (simp add: hyper_exec_def)
qed

lemma tonic_between_no_emission:
  assumes "\<forall>c \<in> set mid. \<not> (tonic_is_return c \<and> tonic_key c = k)"
    and "mid = m1 @ c # m2" and "tonic_key c = k"
  shows "grpc_events (tonic_exec cfg (pre @ entry # m1 @ [c]) tonic_init)
       = grpc_events (tonic_exec cfg (pre @ entry # m1) tonic_init)"
proof -
  from assms have "\<not> tonic_is_return c"
    by auto
  then show ?thesis
    using tonic_non_return_no_emission [of c cfg "tonic_exec cfg (pre @ entry # m1) tonic_init"]
    by (simp add: tonic_exec_def)
qed

section \<open>Properties of the probes\<close>

lemma upt_numeral_unfold: "[m..<numeral n] = (if m < numeral n then m # [Suc m..<numeral n] else [])"
  by (simp add: upt_rec [of m "numeral n"])

lemmas fixture_defs = mem_of_def regs_of_def env_of_def test_config_def
  healthz_memory_def healthz_entry_def healthz_method_def healthz_uri_def healthz_return_def
  grpc_memory_def grpc_client_entry_def grpc_client_return_def
  grpc_server_return_def ascii_def

lemmas helper_defs = get_argument_def get_argument_by_stack_def probe_read_u64_def
  bpf_probe_read_def le_u64_def probe_read_into_def bpf_map_lookup_elem_def
  bpf_map_update_elem_def bpf_map_delete_elem_def upt_numeral_unfold
  MAX_CONCURRENT_def MAX_METHOD_SIZE_def MAX_PATH_SIZE_def

lemmas hyper_probe_defs = uprobe_hyper_serve_connection_def uprobe_hyper_serve_connection_return_def
  uprobe_hyper_request_method_def uprobe_hyper_request_uri_def

text \<open>
  The two end-to-end scenarios, run on the model. The HTTP request on key \<open>0xAA\<close> is
  emitted once, with its method, its path and timestamps 2,000,000 ns apart, and leaves
  both maps empty. The gRPC client call on key \<open>0xBB\<close> is emitted once with the service
  and the method that the entry probe read inline.
\<close>

lemma healthz_scenario:
  "hyper_exec test_config [healthz_entry, healthz_method, healthz_uri, healthz_return] hyper_init =
     \<lparr>context_to_http_events = [], http_spans_in_progress = [],
      events = [\<lparr>http_start_time = 1000, http_end_time = 2001000,
                 http_method = ascii ''GET'' @ replicate 13 0,
                 http_path = ascii ''/healthz'' @ replicate 248 0,
                 http_status_code = 0, http_sc = 7\<rparr>]\<rparr>"
  by (simp add: fixture_defs helper_defs hyper_probe_defs hyper_exec_def hyper_init_def Let_def)

lemma grpc_client_scenario:
  "tonic_exec test_config [grpc_client_entry, grpc_client_return] tonic_init =
     \<lparr>context_to_grpc_events = [], grpc_spans_in_progress = [],
      grpc_events = [\<lparr>grpc_start_time = 5000, grpc_end_time = 6000,
                      grpc_service = ascii ''pkg.Svc'' @ replicate 249 0,
                      grpc_method = ascii ''SayHello'' @ replicate 8 0,
                      grpc_status_code = 0, grpc_sc = 9\<rparr>]\<rparr>"
  by (simp add: fixture_defs helper_defs tonic_probe_defs tonic_exec_def tonic_init_def Let_def)

text \<open>
  C1. An entry probe with a non-null key \<open>k\<close> that finds \<open>k\<close> in the table or room for it,
  then any invocations of which no return probe reads \<open>k\<close>, then a return probe that reads
  \<open>k\<close>: the return probe appends exactly one record to the channel, the entry probe and
  every probe that works on \<open>k\<close> in between append none. The record belongs to the entry
  that opened the request, the last entry on \<open>k\<close> before the return: its start time and
  span context are that entry's clock reading and generated context, its end time is the
  clock reading of the return probe. So when the entry's reading is non-zero and earlier
  than the return's, both timestamps are non-zero and the end time is greater than the
  start time. This holds for the HTTP pair and for the gRPC server and client pairs.
\<close>

theorem entry_return_pair_emits_one_record:
  "(fst hentry = Hyper_serve_connection \<and> hyper_key hentry = hk \<and> hk \<noteq> 0
      \<and> (bpf_map_lookup_elem (context_to_http_events (hyper_exec cfg hpre hyper_init)) hk \<noteq> None
          \<or> length (context_to_http_events (hyper_exec cfg hpre hyper_init)) < MAX_CONCURRENT)
      \<and> (\<forall>c \<in> set hmid. \<not> (hyper_is_return c \<and> hyper_key c = hk))
      \<and> hyper_is_return hret \<and> hyper_key hret = hk
    \<longrightarrow> (\<exists>r. events (hyper_exec cfg (hpre @ hentry # hmid @ [hret]) hyper_init)
               = events (hyper_exec cfg (hpre @ hentry # hmid) hyper_init) @ [r]
            \<and> http_start_time r = bpf_ktime_get_ns (fst (snd (hyper_opener hk hentry hmid)))
            \<and> http_sc r = generate_span_context (fst (snd (hyper_opener hk hentry hmid)))
            \<and> http_end_time r = bpf_ktime_get_ns (fst (snd hret))
            \<and> (bpf_ktime_get_ns (fst (snd (hyper_opener hk hentry hmid))) \<noteq> 0
                \<and> bpf_ktime_get_ns (fst (snd (hyper_opener hk hentry hmid)))
                    < bpf_ktime_get_ns (fst (snd hret))
               \<longrightarrow> http_start_time r \<noteq> 0 \<and> http_end_time r \<noteq> 0
                   \<and> http_start_time r < http_end_time r))
        \<and> events (hyper_exec cfg (hpre @ [hentry]) hyper_init)
           = events (hyper_exec cfg hpre hyper_init)
        \<and> (\<forall>m1 c m2. hmid = m1 @ c # m2 \<and> hyper_key c = hk
             \<longrightarrow> events (hyper_exec cfg (hpre @ hentry # m1 @ [c]) hyper_init)
                 = events (hyper_exec cfg (hpre @ hentry # m1) hyper_init)))
   \<and> (tonic_is_entry tentry \<and> tonic_key tentry = tk \<and> tk \<noteq> 0
      \<and> (bpf_map_lookup_elem (context_to_grpc_events (tonic_exec cfg tpre tonic_init)) tk \<noteq> None
          \<or> length (context_to_grpc_events (tonic_exec cfg tpre tonic_init)) < MAX_CONCURRENT)
      \<and> (\<forall>c \<in> set tmid. \<not> (tonic_is_return c \<and> tonic_key c = tk))
      \<and> tonic_is_return tret \<and> tonic_key tret = tk
    \<longrightarrow> (\<exists>r. grpc_events (tonic_exec cfg (tpre @ tentry # tmid @ [tret]) tonic_init)
               = grpc_events (tonic_exec cfg (tpre @ tentry # tmid) tonic_init) @ [r]
            \<and> grpc_start_time r = bpf_ktime_get_ns (fst (snd (tonic_opener tk tentry tmid)))
            \<and> grpc_sc r = generate_span_context (fst (snd (tonic_opener tk tentry tmid)))
            \<and> grpc_end_time r = bpf_ktime_get_ns (fst (snd tret))
            \<and> (bpf_ktime_get_ns (fst (snd (tonic_opener tk tentry tmid))) \<noteq> 0
                \<and> bpf_ktime_get_ns (fst (snd (tonic_opener tk tentry tmid)))
                    < bpf_ktime_get_ns (fst (snd tret))
               \<longrightarrow> grpc_start_time r \<noteq> 0 \<and> grpc_end_time r \<noteq> 0
                   \<and> grpc_start_time r < grpc_end_time r))
        \<and> grpc_events (tonic_exec cfg (tpre @ [tentry]) tonic_init)
           = grpc_events (tonic_exec cfg tpre tonic_init)
        \<and> (\<forall>m1 c m2. tmid = m1 @ c # m2 \<and> tonic_key c = tk
             \<longrightarrow> grpc_events (tonic_exec cfg (tpre @ tentry # m1 @ [c]) tonic_init)
                 = grpc_events (tonic_exec cfg (tpre @ tentry # m1) tonic_init)))"
proof (intro conjI impI; (elim conjE)?)
  assume a: "fst hentry = Hyper_serve_connection" "hyper_key hentry = hk" "hk \<noteq> 0"
    "bpf_map_lookup_elem (context_to_http_events (hyper_exec cfg hpre hyper_init)) hk \<noteq> None
       \<or> length (context_to_http_events (hyper_exec cfg hpre hyper_init)) < MAX_CONCURRENT"
    "\<forall>c \<in> set hmid. \<not> (hyper_is_return c \<and> hyper_key c = hk)"
    "hyper_is_return hret" "hyper_key hret = hk"
  from hyper_pair [OF a]
  obtain r where r: "events (hyper_exec cfg (hpre @ hentry # hmid @ [hret]) hyper_init)
               = events (hyper_exec cfg (hpre @ hentry # hmid) hyper_init) @ [r]"
     "events (hyper_exec cfg (hpre @ [hentry]) hyper_init) = events (hyper_exec cfg hpre hyper_init)"
     "http_start_time r = bpf_ktime_get_ns (fst (snd (hyper_opener hk hentry hmid)))"
     "http_sc r = generate_span_context (fst (snd (hyper_opener hk hentry hmid)))"
     "http_end_time r = bpf_ktime_get_ns (fst (snd hret))"
    by blast
  have nz: "y \<noteq> 0" if "x < y" for x y :: u64
    using that by (cases "y = 0") simp_all
  show "\<exists>r. events (hyper_exec cfg (hpre @ hentry # hmid @ [hret]) hyper_init)
               = events (hyper_exec cfg (hpre @ hentry # hmid) hyper_init) @ [r]
            \<and> http_start_time r = bpf_ktime_get_ns (fst (snd (hyper_opener hk hentry hmid)))
            \<and> http_sc r = generate_span_context (fst (snd (hyper_opener hk hentry hmid)))
            \<and> http_end_time r = bpf_ktime_get_ns (fst (snd hret))
            \<and> (bpf_ktime_get_ns (fst (snd (hyper_opener hk hentry hmid))) \<noteq> 0
                \<and> bpf_ktime_get_ns (fst (snd (hyper_opener hk hentry hmid)))
                    < bpf_ktime_get_ns (fst (snd hret))
               \<longrightarrow> http_start_time r \<noteq> 0 \<and> http_end_time r \<noteq> 0
                   \<and> http_start_time r < http_end_time r)"
    using r(1,3,4,5) nz by (intro exI [of _ r]) auto
  show "events (hyper_exec cfg (hpre @ [hentry]) hyper_init) = events (hyper_exec cfg hpre hyper_init)"
    by (rule r(2))
  show "\<forall>m1 c m2. hmid = m1 @ c # m2 \<and> hyper_key c = hk
             \<longrightarrow> events (hyper_exec cfg (hpre @ hentry # m1 @ [c]) hyper_init)
                 = events (hyper_exec cfg (hpre @ hentry # m1) hyper_init)"
    using hyper_between_no_emission [OF a(5)] by blast
next
  assume a: "tonic_is_entry tentry" "tonic_key tentry = tk" "tk \<noteq> 0"
    "bpf_map_lookup_elem (context_to_grpc_events (tonic_exec cfg tpre tonic_init)) tk \<noteq> None
       \<or> length (context_to_grpc_events (tonic_exec cfg tpre tonic_init)) < MAX_CONCURRENT"
    "\<forall>c \<in> set tmid. \<not> (tonic_is_return c \<and> tonic_key c = tk)"
    "tonic_is_return tret" "tonic_key tret = tk"
  from tonic_pair [OF a]
  obtain r where r: "grpc_events (tonic_exec cfg (tpre @ tentry # tmid @ [tret]) tonic_init)
               = grpc_events (tonic_exec cfg (tpre @ tentry # tmid) tonic_init) @ [r]"
     "grpc_events (tonic_exec cfg (tpre @ [tentry]) tonic_init)
        = grpc_events (tonic_exec cfg tpre tonic_init)"
     "grpc_start_time r = bpf_ktime_get_ns (fst (snd (tonic_opener tk tentry tmid)))"
     "grpc_sc r = generate_span_context (fst (snd (tonic_opener tk tentry tmid)))"
     "grpc_end_time r = bpf_ktime_get_ns (fst (snd tret))"
    by blast
  have nz: "y \<noteq> 0" if "x < y" for x y :: u64
    using that by (cases "y = 0") simp_all
  show "\<exists>r. grpc_events (tonic_exec cfg (tpre @ tentry # tmid @ [tret]) tonic_init)
               = grpc_events (tonic_exec cfg (tpre @ tentry # tmid) tonic_init) @ [r]
            \<and> grpc_start_time r = bpf_ktime_get_ns (fst (snd (tonic_opener tk tentry tmid)))
            \<and> grpc_sc r = generate_span_context (fst (snd (tonic_opener tk tentry tmid)))
            \<and> grpc_end_time r = bpf_ktime_get_ns (fst (snd tret))
            \<and> (bpf_ktime_get_ns (fst (snd (tonic_opener tk tentry tmid))) \<noteq> 0
                \<and> bpf_ktime_get_ns (fst (snd (tonic_opener tk tentry tmid)))
                    < bpf_ktime_get_ns (fst (snd tret))
               \<longrightarrow> grpc_start_time r \<noteq> 0 \<and> grpc_end_time r \<noteq> 0
                   \<and> grpc_start_time r < grpc_end_time r)"
    using r(1,3,4,5) nz by (intro exI [of _ r]) auto
  show "grpc_events (tonic_exec cfg (tpre @ [tentry]) tonic_init)
        = grpc_events (tonic_exec cfg tpre tonic_init)"
    by (rule r(2))
  show "\<forall>m1 c m2. tmid = m1 @ c # m2 \<and> tonic_key c = tk
             \<longrightarrow> grpc_events (tonic_exec cfg (tpre @ tentry # m1 @ [c]) tonic_init)
                 = grpc_events (tonic_exec cfg (tpre @ tentry # m1) tonic_init)"
    using tonic_between_no_emission [OF a(5)] by blast
qed


theorem entry_return_pair_emits_one_record_witness:
  "(\<exists>r. events (hyper_exec test_config
               ([] @ healthz_entry # [healthz_method, healthz_uri] @ [healthz_return]) hyper_init)
         = events (hyper_exec test_config
               ([] @ healthz_entry # [healthz_method, healthz_uri]) hyper_init) @ [r]
        \<and> http_start_time r = 1000 \<and> http_sc r = 7 \<and> http_end_time r = 2001000
        \<and> http_start_time r \<noteq> 0 \<and> http_end_time r \<noteq> 0
        \<and> http_start_time r < http_end_time r)
   \<and> events (hyper_exec test_config ([] @ [healthz_entry]) hyper_init)
      = events (hyper_exec test_config [] hyper_init)
   \<and> events (hyper_exec test_config ([] @ healthz_entry # [] @ [healthz_method]) hyper_init)
      = events (hyper_exec test_config ([] @ healthz_entry # []) hyper_init)
   \<and> (\<exists>r. events (hyper_exec test_config
               ([] @ healthz_entry # [healthz_method, healthz_reentry] @ [healthz_return]) hyper_init)
         = events (hyper_exec test_config
               ([] @ healthz_entry # [healthz_method, healthz_reentry]) hyper_init) @ [r]
        \<and> http_start_time r = 1500 \<and> http_sc r = 8 \<and> http_end_time r = 2001000
        \<and> http_start_time r < http_end_time r)
   \<and> (\<exists>r. grpc_events (tonic_exec test_config
               ([] @ grpc_client_entry # [] @ [grpc_client_return]) tonic_init)
         = grpc_events (tonic_exec test_config ([] @ grpc_client_entry # []) tonic_init) @ [r]
        \<and> grpc_start_time r = 5000 \<and> grpc_sc r = 9 \<and> grpc_end_time r = 6000
        \<and> grpc_start_time r \<noteq> 0 \<and> grpc_end_time r \<noteq> 0
        \<and> grpc_start_time r < grpc_end_time r)
   \<and> (\<exists>r. grpc_events (tonic_exec test_config
               ([] @ grpc_server_entry # [] @ [grpc_server_return]) tonic_init)
         = grpc_events (tonic_exec test_config ([] @ grpc_server_entry # []) tonic_init) @ [r]
        \<and> grpc_start_time r = 5000 \<and> grpc_sc r = 9 \<and> grpc_end_time r = 6000
        \<and> grpc_start_time r \<noteq> 0 \<and> grpc_end_time r \<noteq> 0
        \<and> grpc_start_time r < grpc_end_time r)
   \<and> grpc_events (tonic_exec test_config ([] @ [grpc_server_entry]) tonic_init)
      = grpc_events (tonic_exec test_config [] tonic_init)"
proof -
  have h1: "fst healthz_entry = Hyper_serve_connection \<and> hyper_key healthz_entry = 0xAA
      \<and> (0xAA :: ptr) \<noteq> 0
      \<and> (bpf_map_lookup_elem
             (context_to_http_events (hyper_exec test_config [] (hyper_init :: nat hyper_maps))) 0xAA
            \<noteq> None
          \<or> length (context_to_http_events (hyper_exec test_config [] (hyper_init :: nat hyper_maps)))
              < MAX_CONCURRENT)
      \<and> (\<forall>c \<in> set [healthz_method, healthz_uri]. \<not> (hyper_is_return c \<and> hyper_key c = 0xAA))
      \<and> hyper_is_return healthz_return \<and> hyper_key healthz_return = 0xAA"
    by (simp add: fixture_defs helper_defs hyper_is_return_def hyper_exec_def hyper_init_def)
  have h2: "fst healthz_entry = Hyper_serve_connection \<and> hyper_key healthz_entry = 0xAA
      \<and> (0xAA :: ptr) \<noteq> 0
      \<and> (bpf_map_lookup_elem
             (context_to_http_events (hyper_exec test_config [] (hyper_init :: nat hyper_maps))) 0xAA
            \<noteq> None
          \<or> length (context_to_http_events (hyper_exec test_config [] (hyper_init :: nat hyper_maps)))
              < MAX_CONCURRENT)
      \<and> (\<forall>c \<in> set [healthz_method, healthz_reentry]. \<not> (hyper_is_return c \<and> hyper_key c = 0xAA))
      \<and> hyper_is_return healthz_return \<and> hyper_key healthz_return = 0xAA"
    by (simp add: fixture_defs helper_defs hyper_is_return_def hyper_exec_def hyper_init_def
        healthz_reentry_def)
  have t1: "tonic_is_entry grpc_client_entry \<and> tonic_key grpc_client_entry = 0xBB
      \<and> (0xBB :: ptr) \<noteq> 0
      \<and> (bpf_map_lookup_elem
             (context_to_grpc_events (tonic_exec test_config [] (tonic_init :: nat tonic_maps))) 0xBB
            \<noteq> None
          \<or> length (context_to_grpc_events (tonic_exec test_config [] (tonic_init :: nat tonic_maps)))
              < MAX_CONCURRENT)
      \<and> (\<forall>c \<in> set ([] :: nat tonic_call list). \<not> (tonic_is_return c \<and> tonic_key c = 0xBB))
      \<and> tonic_is_return grpc_client_return \<and> tonic_key grpc_client_return = 0xBB"
    by (simp add: fixture_defs helper_defs tonic_is_return_def tonic_is_entry_def tonic_exec_def
        tonic_init_def)
  have t2: "tonic_is_entry grpc_server_entry \<and> tonic_key grpc_server_entry = 0xBB
      \<and> (0xBB :: ptr) \<noteq> 0
      \<and> (bpf_map_lookup_elem
             (context_to_grpc_events (tonic_exec test_config [] (tonic_init :: nat tonic_maps))) 0xBB
            \<noteq> None
          \<or> length (context_to_grpc_events (tonic_exec test_config [] (tonic_init :: nat tonic_maps)))
              < MAX_CONCURRENT)
      \<and> (\<forall>c \<in> set ([] :: nat tonic_call list). \<not> (tonic_is_return c \<and> tonic_key c = 0xBB))
      \<and> tonic_is_return grpc_server_return \<and> tonic_key grpc_server_return = 0xBB"
    by (simp add: fixture_defs helper_defs tonic_is_return_def tonic_is_entry_def tonic_exec_def
        tonic_init_def grpc_server_entry_def)
  note H1 = entry_return_pair_emits_one_record
      [where hentry = healthz_entry and hk = "0xAA" and cfg = test_config and hpre = "[]"
         and hmid = "[healthz_method, healthz_uri]" and hret = healthz_return,
       THEN conjunct1, THEN mp, OF h1]
  note H2 = entry_return_pair_emits_one_record
      [where hentry = healthz_entry and hk = "0xAA" and cfg = test_config and hpre = "[]"
         and hmid = "[healthz_method, healthz_reentry]" and hret = healthz_return,
       THEN conjunct1, THEN mp, OF h2]
  note T1 = entry_return_pair_emits_one_record
      [where tentry = grpc_client_entry and tk = "0xBB" and cfg = test_config and tpre = "[]"
         and tmid = "[]" and tret = grpc_client_return,
       THEN conjunct2, THEN mp, OF t1]
  note T2 = entry_return_pair_emits_one_record
      [where tentry = grpc_server_entry and tk = "0xBB" and cfg = test_config and tpre = "[]"
         and tmid = "[]" and tret = grpc_server_return,
       THEN conjunct2, THEN mp, OF t2]
  have o: "hyper_opener 0xAA healthz_entry [healthz_method, healthz_uri] = healthz_entry"
    "hyper_opener 0xAA healthz_entry [healthz_method, healthz_reentry] = healthz_reentry"
    "tonic_opener 0xBB grpc_client_entry [] = grpc_client_entry"
    "tonic_opener 0xBB grpc_server_entry [] = grpc_server_entry"
    by (simp_all add: hyper_opener_def tonic_opener_def fixture_defs helper_defs healthz_reentry_def)
  have t: "bpf_ktime_get_ns (fst (snd healthz_entry)) = 1000"
    "generate_span_context (fst (snd healthz_entry)) = 7"
    "bpf_ktime_get_ns (fst (snd healthz_reentry)) = 1500"
    "generate_span_context (fst (snd healthz_reentry)) = 8"
    "bpf_ktime_get_ns (fst (snd healthz_return)) = 2001000"
    "bpf_ktime_get_ns (fst (snd grpc_client_entry)) = 5000"
    "generate_span_context (fst (snd grpc_client_entry)) = 9"
    "bpf_ktime_get_ns (fst (snd grpc_client_return)) = 6000"
    "bpf_ktime_get_ns (fst (snd grpc_server_entry)) = 5000"
    "generate_span_context (fst (snd grpc_server_entry)) = 9"
    "bpf_ktime_get_ns (fst (snd grpc_server_return)) = 6000"
    by (simp_all add: fixture_defs healthz_reentry_def grpc_server_entry_def)
  have c: "(1000 :: u64) \<noteq> 0 \<and> (1000 :: u64) < 2001000"
    "(1500 :: u64) \<noteq> 0 \<and> (1500 :: u64) < 2001000"
    "(5000 :: u64) \<noteq> 0 \<and> (5000 :: u64) < 6000"
    by simp_all
  from H1 [THEN conjunct1] c(1) have 1: "\<exists>r. events (hyper_exec test_config
               ([] @ healthz_entry # [healthz_method, healthz_uri] @ [healthz_return]) hyper_init)
         = events (hyper_exec test_config
               ([] @ healthz_entry # [healthz_method, healthz_uri]) hyper_init) @ [r]
        \<and> http_start_time r = 1000 \<and> http_sc r = 7 \<and> http_end_time r = 2001000
        \<and> http_start_time r \<noteq> 0 \<and> http_end_time r \<noteq> 0
        \<and> http_start_time r < http_end_time r"
    unfolding o t by blast
  note 2 = H1 [THEN conjunct2, THEN conjunct1]
  have k: "[healthz_method, healthz_uri] = [] @ healthz_method # [healthz_uri]
      \<and> hyper_key healthz_method = 0xAA"
    by (simp add: fixture_defs helper_defs)
  note 3 = H1 [THEN conjunct2, THEN conjunct2, THEN spec, THEN spec, THEN spec, THEN mp, OF k]
  from H2 [THEN conjunct1] c(2) have 4: "\<exists>r. events (hyper_exec test_config
               ([] @ healthz_entry # [healthz_method, healthz_reentry] @ [healthz_return]) hyper_init)
         = events (hyper_exec test_config
               ([] @ healthz_entry # [healthz_method, healthz_reentry]) hyper_init) @ [r]
        \<and> http_start_time r = 1500 \<and> http_sc r = 8 \<and> http_end_time r = 2001000
        \<and> http_start_time r < http_end_time r"
    unfolding o t by blast
  from T1 [THEN conjunct1] c(3) have 5: "\<exists>r. grpc_events (tonic_exec test_config
               ([] @ grpc_client_entry # [] @ [grpc_client_return]) tonic_init)
         = grpc_events (tonic_exec test_config ([] @ grpc_client_entry # []) tonic_init) @ [r]
        \<and> grpc_start_time r = 5000 \<and> grpc_sc r = 9 \<and> grpc_end_time r = 6000
        \<and> grpc_start_time r \<noteq> 0 \<and> grpc_end_time r \<noteq> 0
        \<and> grpc_start_time r < grpc_end_time r"
    unfolding o t by blast
  from T2 [THEN conjunct1] c(3) have 6: "\<exists>r. grpc_events (tonic_exec test_config
               ([] @ grpc_server_entry # [] @ [grpc_server_return]) tonic_init)
         = grpc_events (tonic_exec test_config ([] @ grpc_server_entry # []) tonic_init) @ [r]
        \<and> grpc_start_time r = 5000 \<and> grpc_sc r = 9 \<and> grpc_end_time r = 6000
        \<and> grpc_start_time r \<noteq> 0 \<and> grpc_end_time r \<noteq> 0
        \<and> grpc_start_time r < grpc_end_time r"
    unfolding o t by blast
  note 7 = T2 [THEN conjunct2, THEN conjunct1]
  from 1 2 3 4 5 6 7 show ?thesis
    by (intro conjI)
qed

text \<open>
  C3. A probe other than an entry probe (the HTTP method and URI probes and the return
  probes) whose key is not in the table returns 0 and leaves the maps and the channel
  as they were. A key that no entry probe of the execution has worked on is not in the
  table. A second return probe on the key of a first one changes nothing and emits no
  second record.
\<close>

theorem absent_key_is_a_no_op:
  "(fst hc \<noteq> Hyper_serve_connection
      \<and> bpf_map_lookup_elem (context_to_http_events hs) (hyper_key hc) = None
      \<longrightarrow> hyper_probe_run cfg hc hs = (0, hs))
   \<and> (\<not> tonic_is_entry tc
      \<and> bpf_map_lookup_elem (context_to_grpc_events ts) (tonic_key tc) = None
      \<longrightarrow> tonic_probe_run cfg tc ts = (0, ts))
   \<and> ((\<forall>c \<in> set hcalls. \<not> (fst c = Hyper_serve_connection \<and> hyper_key c = hk))
      \<longrightarrow> bpf_map_lookup_elem (context_to_http_events (hyper_exec cfg hcalls hyper_init)) hk = None)
   \<and> ((\<forall>c \<in> set tcalls. \<not> (tonic_is_entry c \<and> tonic_key c = tk))
      \<longrightarrow> bpf_map_lookup_elem (context_to_grpc_events (tonic_exec cfg tcalls tonic_init)) tk = None)
   \<and> (hyper_is_return hr \<and> hyper_is_return hr' \<and> hyper_key hr' = hyper_key hr
      \<longrightarrow> hyper_probe_run cfg hr' (snd (hyper_probe_run cfg hr hs))
            = (0, snd (hyper_probe_run cfg hr hs)))
   \<and> (tonic_is_return tr \<and> tonic_is_return tr' \<and> tonic_key tr' = tonic_key tr
      \<longrightarrow> tonic_probe_run cfg tr' (snd (tonic_probe_run cfg tr ts))
            = (0, snd (tonic_probe_run cfg tr ts)))"
proof -
  have "bpf_map_lookup_elem (context_to_http_events (hyper_exec cfg hcalls hyper_init)) hk = None"
    if "\<forall>c \<in> set hcalls. \<not> (fst c = Hyper_serve_connection \<and> hyper_key c = hk)"
    using that unfolding bpf_map_lookup_elem_def
    by (rule hyper_never_entered) (simp add: hyper_init_def)
  moreover
  have "bpf_map_lookup_elem (context_to_grpc_events (tonic_exec cfg tcalls tonic_init)) tk = None"
    if "\<forall>c \<in> set tcalls. \<not> (tonic_is_entry c \<and> tonic_key c = tk)"
    using that unfolding bpf_map_lookup_elem_def
    by (rule tonic_never_entered) (simp add: tonic_init_def)
  ultimately show ?thesis
    using hyper_absent_key [of hc hs cfg] tonic_absent_key [of tc ts cfg]
      hyper_return_twice [of hr hr' cfg hs] tonic_return_twice [of tr tr' cfg ts]
    by blast
qed

theorem absent_key_is_a_no_op_witness:
  "hyper_probe_run test_config healthz_method hyper_init = (0, hyper_init)
   \<and> tonic_probe_run test_config grpc_client_return tonic_init = (0, tonic_init)
   \<and> bpf_map_lookup_elem
        (context_to_http_events (hyper_exec test_config [healthz_method, healthz_uri] hyper_init))
        0xAA = None
   \<and> bpf_map_lookup_elem
        (context_to_grpc_events (tonic_exec test_config [grpc_client_return] tonic_init)) 0xBB = None
   \<and> hyper_probe_run test_config healthz_return
         (snd (hyper_probe_run test_config healthz_return
                 (hyper_exec test_config [healthz_entry] hyper_init)))
       = (0, snd (hyper_probe_run test_config healthz_return
                 (hyper_exec test_config [healthz_entry] hyper_init)))
   \<and> tonic_probe_run test_config grpc_server_return
         (snd (tonic_probe_run test_config grpc_client_return
                 (tonic_exec test_config [grpc_client_entry] tonic_init)))
       = (0, snd (tonic_probe_run test_config grpc_client_return
                 (tonic_exec test_config [grpc_client_entry] tonic_init)))"
proof -
  have "fst healthz_method \<noteq> Hyper_serve_connection
      \<and> bpf_map_lookup_elem (context_to_http_events hyper_init) (hyper_key healthz_method) = None"
    by (simp add: fixture_defs helper_defs hyper_init_def)
  moreover have "\<not> tonic_is_entry grpc_client_return
      \<and> bpf_map_lookup_elem (context_to_grpc_events tonic_init) (tonic_key grpc_client_return) = None"
    by (simp add: fixture_defs helper_defs tonic_init_def tonic_is_entry_def)
  moreover have "\<forall>c \<in> set [healthz_method, healthz_uri].
      \<not> (fst c = Hyper_serve_connection \<and> hyper_key c = 0xAA)"
    by (simp add: fixture_defs)
  moreover have "\<forall>c \<in> set [grpc_client_return]. \<not> (tonic_is_entry c \<and> tonic_key c = 0xBB)"
    by (simp add: fixture_defs tonic_is_entry_def)
  moreover have "hyper_is_return healthz_return \<and> hyper_is_return healthz_return
      \<and> hyper_key healthz_return = hyper_key healthz_return"
    by (simp add: fixture_defs hyper_is_return_def)
  moreover have "tonic_is_return grpc_client_return \<and> tonic_is_return grpc_server_return
      \<and> tonic_key grpc_server_return = tonic_key grpc_client_return"
    by (simp add: fixture_defs tonic_is_return_def)
  ultimately show ?thesis
    using absent_key_is_a_no_op
      [of healthz_method hyper_init test_config grpc_client_return tonic_init
          "[healthz_method, healthz_uri]" "0xAA" "[grpc_client_return]" "0xBB"
          healthz_return healthz_return grpc_client_return grpc_server_return]
      absent_key_is_a_no_op
      [of healthz_method "hyper_exec test_config [healthz_entry] hyper_init" test_config
          grpc_client_return "tonic_exec test_config [grpc_client_entry] tonic_init"
          "[healthz_method, healthz_uri]" "0xAA" "[grpc_client_return]" "0xBB"
          healthz_return healthz_return grpc_client_return grpc_server_return]
    by blast
qed

text \<open>
  C10. No HTTP probe writes \<^verbatim>\<open>status_code\<close>: after every execution, every record on the
  channel and every record in the table has the status code 0 that the entry probe's
  zero-initialisation gave it.
\<close>

theorem http_status_code_stays_zero:
  "(\<forall>r \<in> set (events (hyper_exec cfg calls hyper_init)). http_status_code r = 0)
   \<and> (\<forall>k r. bpf_map_lookup_elem (context_to_http_events (hyper_exec cfg calls hyper_init)) k = Some r
          \<longrightarrow> http_status_code r = 0)"
proof -
  have "hyper_wf (hyper_exec cfg calls hyper_init)"
    by (intro hyper_wf_exec hyper_wf_init)
  then show ?thesis
    by (simp add: hyper_wf_def bpf_map_lookup_elem_def del: map_of_eq_Some_iff)
qed

theorem http_status_code_stays_zero_witness:
  "events (hyper_exec test_config [healthz_entry, healthz_method, healthz_uri, healthz_return]
             hyper_init) \<noteq> []
   \<and> list_all (\<lambda>r. http_status_code r = 0)
        (events (hyper_exec test_config [healthz_entry, healthz_method, healthz_uri, healthz_return]
                   hyper_init))
   \<and> map_option http_status_code
        (bpf_map_lookup_elem
           (context_to_http_events (hyper_exec test_config [healthz_entry, healthz_method] hyper_init))
           0xAA) = Some 0"
proof -
  have "events (hyper_exec test_config [healthz_entry, healthz_method, healthz_uri, healthz_return]
             hyper_init) \<noteq> []"
    by (simp add: fixture_defs helper_defs hyper_probe_defs hyper_exec_def hyper_init_def Let_def)
  moreover have "bpf_map_lookup_elem
           (context_to_http_events (hyper_exec test_config [healthz_entry, healthz_method] hyper_init))
           0xAA \<noteq> None"
    by (simp add: fixture_defs helper_defs hyper_probe_defs hyper_exec_def hyper_init_def Let_def)
  ultimately show ?thesis
    using http_status_code_stays_zero
        [of test_config "[healthz_entry, healthz_method, healthz_uri, healthz_return]"]
      http_status_code_stays_zero [of test_config "[healthz_entry, healthz_method]"]
    by (auto simp: list_all_iff)
qed

lemma small_key_neq: "i < 51 \<Longrightarrow> (of_nat i :: u64) \<noteq> 0xAA \<and> (of_nat i :: u64) \<noteq> 0xBB"
proof -
  assume i: "i < 51"
  then have u: "unat (of_nat i :: u64) = i"
    by (simp add: unat_of_nat)
  have "unat (of_nat i :: u64) \<noteq> unat (0xAA :: u64)" "unat (of_nat i :: u64) \<noteq> unat (0xBB :: u64)"
    using i unfolding u by simp_all
  then show ?thesis
    by auto
qed

lemma full_http_table_facts:
  "length full_http_table = MAX_CONCURRENT \<and> map_of full_http_table 0xAA = None"
  by (auto simp: full_http_table_def MAX_CONCURRENT_def map_of_eq_None_iff image_iff
      dest: small_key_neq)

lemma full_grpc_table_facts:
  "length full_grpc_table = MAX_CONCURRENT \<and> map_of full_grpc_table 0xBB = None"
  by (auto simp: full_grpc_table_def MAX_CONCURRENT_def map_of_eq_None_iff image_iff
      dest: small_key_neq)

lemma hyper_full_table_call:
  assumes "fst c = Hyper_serve_connection"
    and "length (context_to_http_events s) = MAX_CONCURRENT"
    and "bpf_map_lookup_elem (context_to_http_events s) (hyper_key c) = None"
  shows "fst (hyper_probe_run cfg c s) = 0
     \<and> context_to_http_events (snd (hyper_probe_run cfg c s)) = context_to_http_events s
     \<and> events (snd (hyper_probe_run cfg c s)) = events s"
proof -
  obtain env ctx where c: "c = (Hyper_serve_connection, env, ctx)"
    using assms(1) by (cases c) auto
  show ?thesis
    using assms(2,3) hyper_full_table_entry [of s ctx cfg env] by (simp add: c)
qed

text \<open>
  C5. After every execution each table has distinct keys and at most
  \<^verbatim>\<open>MAX_CONCURRENT\<close> = 50 entries. When a table holds 50 entries and an entry probe comes
  with a key that is not among them, \<^verbatim>\<open>bpf_map_update_elem\<close> fails with \<^verbatim>\<open>-E2BIG\<close>, the
  probe returns 0, the table and the channel are as before (nothing is evicted), and every
  later enrichment or return probe on that key does nothing: the request is untracked.
\<close>

theorem table_capacity_is_respected:
  "MAX_CONCURRENT = 50
   \<and> length (context_to_http_events (hyper_exec cfg hcalls hyper_init)) \<le> MAX_CONCURRENT
   \<and> distinct (map fst (context_to_http_events (hyper_exec cfg hcalls hyper_init)))
   \<and> length (context_to_grpc_events (tonic_exec cfg tcalls tonic_init)) \<le> MAX_CONCURRENT
   \<and> distinct (map fst (context_to_grpc_events (tonic_exec cfg tcalls tonic_init)))
   \<and> (fst hc = Hyper_serve_connection
        \<and> length (context_to_http_events hs) = MAX_CONCURRENT
        \<and> bpf_map_lookup_elem (context_to_http_events hs) (hyper_key hc) = None
      \<longrightarrow> bpf_map_update_elem MAX_CONCURRENT (context_to_http_events hs) (hyper_key hc) hrec
            = (- E2BIG, context_to_http_events hs)
          \<and> fst (hyper_probe_run cfg hc hs) = 0
          \<and> context_to_http_events (snd (hyper_probe_run cfg hc hs)) = context_to_http_events hs
          \<and> events (snd (hyper_probe_run cfg hc hs)) = events hs
          \<and> (\<forall>c. fst c \<noteq> Hyper_serve_connection \<and> hyper_key c = hyper_key hc
                \<longrightarrow> hyper_probe_run cfg c (snd (hyper_probe_run cfg hc hs))
                      = (0, snd (hyper_probe_run cfg hc hs))))
   \<and> (tonic_is_entry tc
        \<and> length (context_to_grpc_events ts) = MAX_CONCURRENT
        \<and> bpf_map_lookup_elem (context_to_grpc_events ts) (tonic_key tc) = None
      \<longrightarrow> bpf_map_update_elem MAX_CONCURRENT (context_to_grpc_events ts) (tonic_key tc) trec
            = (- E2BIG, context_to_grpc_events ts)
          \<and> fst (tonic_probe_run cfg tc ts) = 0
          \<and> context_to_grpc_events (snd (tonic_probe_run cfg tc ts)) = context_to_grpc_events ts
          \<and> grpc_events (snd (tonic_probe_run cfg tc ts)) = grpc_events ts
          \<and> (\<forall>c. \<not> tonic_is_entry c \<and> tonic_key c = tonic_key tc
                \<longrightarrow> tonic_probe_run cfg c (snd (tonic_probe_run cfg tc ts))
                      = (0, snd (tonic_probe_run cfg tc ts))))"
proof -
  have h: "hyper_wf (hyper_exec cfg hcalls hyper_init)"
    by (intro hyper_wf_exec hyper_wf_init)
  have t: "tonic_wf (tonic_exec cfg tcalls tonic_init)"
    by (intro tonic_wf_exec tonic_wf_init)
  have hfull: "bpf_map_update_elem MAX_CONCURRENT (context_to_http_events hs) (hyper_key hc) hrec
            = (- E2BIG, context_to_http_events hs)
          \<and> fst (hyper_probe_run cfg hc hs) = 0
          \<and> context_to_http_events (snd (hyper_probe_run cfg hc hs)) = context_to_http_events hs
          \<and> events (snd (hyper_probe_run cfg hc hs)) = events hs
          \<and> (\<forall>c. fst c \<noteq> Hyper_serve_connection \<and> hyper_key c = hyper_key hc
                \<longrightarrow> hyper_probe_run cfg c (snd (hyper_probe_run cfg hc hs))
                      = (0, snd (hyper_probe_run cfg hc hs)))"
    if a: "fst hc = Hyper_serve_connection" "length (context_to_http_events hs) = MAX_CONCURRENT"
      "bpf_map_lookup_elem (context_to_http_events hs) (hyper_key hc) = None"
  proof -
    note f = hyper_full_table_call [OF a, of cfg]
    have "hyper_probe_run cfg c (snd (hyper_probe_run cfg hc hs))
        = (0, snd (hyper_probe_run cfg hc hs))"
      if "fst c \<noteq> Hyper_serve_connection" "hyper_key c = hyper_key hc" for c
      using that a(3) f by (intro hyper_absent_key) simp_all
    with f a show ?thesis
      by (simp add: update_elem_full bpf_map_lookup_elem_def)
  qed
  have tfull: "bpf_map_update_elem MAX_CONCURRENT (context_to_grpc_events ts) (tonic_key tc) trec
            = (- E2BIG, context_to_grpc_events ts)
          \<and> fst (tonic_probe_run cfg tc ts) = 0
          \<and> context_to_grpc_events (snd (tonic_probe_run cfg tc ts)) = context_to_grpc_events ts
          \<and> grpc_events (snd (tonic_probe_run cfg tc ts)) = grpc_events ts
          \<and> (\<forall>c. \<not> tonic_is_entry c \<and> tonic_key c = tonic_key tc
                \<longrightarrow> tonic_probe_run cfg c (snd (tonic_probe_run cfg tc ts))
                      = (0, snd (tonic_probe_run cfg tc ts)))"
    if a: "tonic_is_entry tc" "length (context_to_grpc_events ts) = MAX_CONCURRENT"
      "bpf_map_lookup_elem (context_to_grpc_events ts) (tonic_key tc) = None"
  proof -
    note f = tonic_full_table_entry [OF a, of cfg]
    have "tonic_probe_run cfg c (snd (tonic_probe_run cfg tc ts))
        = (0, snd (tonic_probe_run cfg tc ts))"
      if "\<not> tonic_is_entry c" "tonic_key c = tonic_key tc" for c
      using that a(3) f by (intro tonic_absent_key) simp_all
    with f a show ?thesis
      by (simp add: update_elem_full bpf_map_lookup_elem_def)
  qed
  have "MAX_CONCURRENT = 50"
    by (simp add: MAX_CONCURRENT_def)
  with h t hfull tfull show ?thesis
    unfolding hyper_wf_def tonic_wf_def
    by blast
qed

theorem table_capacity_is_respected_witness:
  "length (context_to_http_events
             (hyper_exec test_config [healthz_entry, healthz_method] hyper_init)) \<le> 50
   \<and> bpf_map_update_elem MAX_CONCURRENT full_http_table (hyper_key healthz_entry)
        \<lparr>http_start_time = 1000, http_end_time = 0, http_method = [], http_path = [],
          http_status_code = 0, http_sc = 7\<rparr>
      = (- E2BIG, full_http_table)
   \<and> fst (hyper_probe_run test_config healthz_entry
        \<lparr>context_to_http_events = full_http_table, http_spans_in_progress = [], events = []\<rparr>) = 0
   \<and> context_to_http_events (snd (hyper_probe_run test_config healthz_entry
        \<lparr>context_to_http_events = full_http_table, http_spans_in_progress = [], events = []\<rparr>))
      = full_http_table
   \<and> hyper_probe_run test_config healthz_return
        (snd (hyper_probe_run test_config healthz_entry
           \<lparr>context_to_http_events = full_http_table, http_spans_in_progress = [], events = []\<rparr>))
      = (0, snd (hyper_probe_run test_config healthz_entry
           \<lparr>context_to_http_events = full_http_table, http_spans_in_progress = [], events = []\<rparr>))
   \<and> context_to_grpc_events (snd (tonic_probe_run test_config grpc_client_entry
           \<lparr>context_to_grpc_events = full_grpc_table, grpc_spans_in_progress = [],
             grpc_events = []\<rparr>))
      = full_grpc_table
   \<and> tonic_probe_run test_config grpc_client_return
        (snd (tonic_probe_run test_config grpc_client_entry
           \<lparr>context_to_grpc_events = full_grpc_table, grpc_spans_in_progress = [],
             grpc_events = []\<rparr>))
      = (0, snd (tonic_probe_run test_config grpc_client_entry
           \<lparr>context_to_grpc_events = full_grpc_table, grpc_spans_in_progress = [],
             grpc_events = []\<rparr>))"
proof -
  let ?hs = "\<lparr>context_to_http_events = full_http_table, http_spans_in_progress = [],
               events = [] :: nat http_request_t list\<rparr>"
  let ?ts = "\<lparr>context_to_grpc_events = full_grpc_table, grpc_spans_in_progress = [],
               grpc_events = [] :: nat grpc_request_t list\<rparr>"
  have k: "hyper_key healthz_entry = 0xAA" "tonic_key grpc_client_entry = 0xBB"
    "hyper_key healthz_return = 0xAA" "tonic_key grpc_client_return = 0xBB"
    by (simp_all add: fixture_defs helper_defs)
  have hh: "fst healthz_entry = Hyper_serve_connection
        \<and> length (context_to_http_events ?hs) = MAX_CONCURRENT
        \<and> bpf_map_lookup_elem (context_to_http_events ?hs) (hyper_key healthz_entry) = None"
    using full_http_table_facts
    by (simp add: k bpf_map_lookup_elem_def) (simp add: healthz_entry_def)
  have th: "tonic_is_entry grpc_client_entry
        \<and> length (context_to_grpc_events ?ts) = MAX_CONCURRENT
        \<and> bpf_map_lookup_elem (context_to_grpc_events ?ts) (tonic_key grpc_client_entry) = None"
    using full_grpc_table_facts
    by (simp add: k bpf_map_lookup_elem_def) (simp add: tonic_is_entry_def grpc_client_entry_def)
  have r: "fst healthz_return \<noteq> Hyper_serve_connection \<and> hyper_key healthz_return = hyper_key healthz_entry"
    "\<not> tonic_is_entry grpc_client_return \<and> tonic_key grpc_client_return = tonic_key grpc_client_entry"
    by (simp_all add: k) (simp_all add: fixture_defs tonic_is_entry_def)
  note T = table_capacity_is_respected
      [of test_config "[healthz_entry, healthz_method]" "[]" healthz_entry ?hs
          "\<lparr>http_start_time = 1000, http_end_time = 0, http_method = [], http_path = [],
             http_status_code = 0, http_sc = 7\<rparr>" grpc_client_entry ?ts undefined]
  note n = T [THEN conjunct1] T [THEN conjunct2, THEN conjunct1]
  note H = T [THEN conjunct2, THEN conjunct2, THEN conjunct2, THEN conjunct2, THEN conjunct2,
      THEN conjunct1, THEN mp, OF hh]
  note G = T [THEN conjunct2, THEN conjunct2, THEN conjunct2, THEN conjunct2, THEN conjunct2,
      THEN conjunct2, THEN mp, OF th]
  note H5 = H [THEN conjunct2, THEN conjunct2, THEN conjunct2, THEN conjunct2, THEN spec,
      of healthz_return, THEN mp, OF r(1)]
  note G5 = G [THEN conjunct2, THEN conjunct2, THEN conjunct2, THEN conjunct2, THEN spec,
      of grpc_client_return, THEN mp, OF r(2)]
  note H1 = H [THEN conjunct1] and H2 = H [THEN conjunct2, THEN conjunct1]
    and H3 = H [THEN conjunct2, THEN conjunct2, THEN conjunct1]
    and G3 = G [THEN conjunct2, THEN conjunct2, THEN conjunct1]
  show ?thesis
    using n H1 H2 H3 H5 G3 G5 by simp
qed







text \<open>
  C4. The end timestamp of a record is written in one place only: a return probe that
  finds the record under its key sets it on its copy, hands the copy to the channel and
  deletes the key from the table in the same invocation. So, after every execution,
  every record still in the table has its end timestamp unwritten (0); an invocation
  either leaves the channel as it is, or it is such a return probe and appends that one
  copy; and, the clock readings being positive and growing, no record on the channel
  has a zero start timestamp.
\<close>

theorem end_time_is_written_by_the_removing_return_probe:
  "(\<forall>k r. bpf_map_lookup_elem (context_to_http_events (hyper_exec cfg hcalls hyper_init)) k = Some r
        \<longrightarrow> http_end_time r = 0)
   \<and> (events (snd (hyper_probe_run cfg hc hs)) = events hs
       \<or> (hyper_is_return hc \<and>
           (\<exists>r. bpf_map_lookup_elem (context_to_http_events hs) (hyper_key hc) = Some r
              \<and> events (snd (hyper_probe_run cfg hc hs))
                  = events hs @ [r\<lparr>http_end_time := bpf_ktime_get_ns (fst (snd hc))\<rparr>]
              \<and> bpf_map_lookup_elem (context_to_http_events (snd (hyper_probe_run cfg hc hs)))
                   (hyper_key hc) = None)))
   \<and> (clock_after 0 hcalls
       \<longrightarrow> (\<forall>r \<in> set (events (hyper_exec cfg hcalls hyper_init)). http_start_time r \<noteq> 0))
   \<and> (\<forall>k r. bpf_map_lookup_elem (context_to_grpc_events (tonic_exec cfg tcalls tonic_init)) k = Some r
        \<longrightarrow> grpc_end_time r = 0)
   \<and> (grpc_events (snd (tonic_probe_run cfg tc ts)) = grpc_events ts
       \<or> (tonic_is_return tc \<and>
           (\<exists>r. bpf_map_lookup_elem (context_to_grpc_events ts) (tonic_key tc) = Some r
              \<and> grpc_events (snd (tonic_probe_run cfg tc ts))
                  = grpc_events ts @ [r\<lparr>grpc_end_time := bpf_ktime_get_ns (fst (snd tc))\<rparr>]
              \<and> bpf_map_lookup_elem (context_to_grpc_events (snd (tonic_probe_run cfg tc ts)))
                   (tonic_key tc) = None)))
   \<and> (clock_after 0 tcalls
       \<longrightarrow> (\<forall>r \<in> set (grpc_events (tonic_exec cfg tcalls tonic_init)). grpc_start_time r \<noteq> 0))"
proof -
  have "hyper_wf (hyper_exec cfg hcalls hyper_init)"
    by (intro hyper_wf_exec hyper_wf_init)
  then have h1: "\<forall>k r. bpf_map_lookup_elem (context_to_http_events (hyper_exec cfg hcalls hyper_init)) k
        = Some r \<longrightarrow> http_end_time r = 0"
    by (simp add: hyper_wf_def bpf_map_lookup_elem_def del: map_of_eq_Some_iff)
  have "tonic_wf (tonic_exec cfg tcalls tonic_init)"
    by (intro tonic_wf_exec tonic_wf_init)
  then have t1: "\<forall>k r. bpf_map_lookup_elem (context_to_grpc_events (tonic_exec cfg tcalls tonic_init)) k
        = Some r \<longrightarrow> grpc_end_time r = 0"
    by (simp add: tonic_wf_def bpf_map_lookup_elem_def del: map_of_eq_Some_iff)
  have h3: "\<forall>r \<in> set (events (hyper_exec cfg hcalls hyper_init)). http_start_time r \<noteq> 0"
    if "clock_after 0 hcalls"
    using hyper_timed_exec [OF hyper_timed_init that, of cfg]
    by (simp add: hyper_timed_def)
  have t3: "\<forall>r \<in> set (grpc_events (tonic_exec cfg tcalls tonic_init)). grpc_start_time r \<noteq> 0"
    if "clock_after 0 tcalls"
    using tonic_timed_exec [OF tonic_timed_init that, of cfg]
    by (simp add: tonic_timed_def)
  show ?thesis
    using h1 t1 h3 t3 hyper_step_emission [of cfg hc hs] tonic_step_emission [of cfg tc ts]
    unfolding bpf_map_lookup_elem_def
    by blast
qed

theorem end_time_is_written_by_the_removing_return_probe_witness:
  "map_option http_end_time
     (bpf_map_lookup_elem
        (context_to_http_events (hyper_exec test_config [healthz_entry, healthz_method] hyper_init))
        0xAA) = Some 0
   \<and> (\<exists>r. bpf_map_lookup_elem
             (context_to_http_events (hyper_exec test_config [healthz_entry, healthz_method] hyper_init))
             (hyper_key healthz_return) = Some r
        \<and> events (snd (hyper_probe_run test_config healthz_return
                     (hyper_exec test_config [healthz_entry, healthz_method] hyper_init)))
            = events (hyper_exec test_config [healthz_entry, healthz_method] hyper_init)
              @ [r\<lparr>http_end_time := bpf_ktime_get_ns (fst (snd healthz_return))\<rparr>]
        \<and> bpf_map_lookup_elem
             (context_to_http_events (snd (hyper_probe_run test_config healthz_return
                     (hyper_exec test_config [healthz_entry, healthz_method] hyper_init))))
             (hyper_key healthz_return) = None)
   \<and> list_all (\<lambda>r. http_start_time r \<noteq> 0)
        (events (hyper_exec test_config [healthz_entry, healthz_method, healthz_uri, healthz_return]
                   hyper_init))
   \<and> events (hyper_exec test_config [healthz_entry, healthz_method, healthz_uri, healthz_return]
                   hyper_init) \<noteq> []
   \<and> map_option grpc_end_time
     (bpf_map_lookup_elem
        (context_to_grpc_events (tonic_exec test_config [grpc_client_entry] tonic_init))
        0xBB) = Some 0
   \<and> (\<exists>r. bpf_map_lookup_elem
             (context_to_grpc_events (tonic_exec test_config [grpc_client_entry] tonic_init))
             (tonic_key grpc_client_return) = Some r
        \<and> grpc_events (snd (tonic_probe_run test_config grpc_client_return
                     (tonic_exec test_config [grpc_client_entry] tonic_init)))
            = grpc_events (tonic_exec test_config [grpc_client_entry] tonic_init)
              @ [r\<lparr>grpc_end_time := bpf_ktime_get_ns (fst (snd grpc_client_return))\<rparr>]
        \<and> bpf_map_lookup_elem
             (context_to_grpc_events (snd (tonic_probe_run test_config grpc_client_return
                     (tonic_exec test_config [grpc_client_entry] tonic_init))))
             (tonic_key grpc_client_return) = None)
   \<and> list_all (\<lambda>r. grpc_start_time r \<noteq> 0)
        (grpc_events (tonic_exec test_config [grpc_client_entry, grpc_client_return] tonic_init))
   \<and> grpc_events (tonic_exec test_config [grpc_client_entry, grpc_client_return] tonic_init) \<noteq> []"
proof -
  let ?hs = "hyper_exec test_config [healthz_entry, healthz_method] hyper_init"
  let ?ts = "tonic_exec test_config [grpc_client_entry] tonic_init"
  let ?hcalls = "[healthz_entry, healthz_method, healthz_uri, healthz_return]"
  let ?tcalls = "[grpc_client_entry, grpc_client_return]"
  have c: "clock_after 0 ?hcalls" "clock_after 0 ?tcalls"
    by (simp_all add: fixture_defs)
  have p: "bpf_map_lookup_elem (context_to_http_events ?hs) 0xAA \<noteq> None"
    "bpf_map_lookup_elem (context_to_grpc_events ?ts) 0xBB \<noteq> None"
    by (simp_all add: fixture_defs helper_defs hyper_probe_defs tonic_probe_defs hyper_exec_def
        tonic_exec_def hyper_init_def tonic_init_def Let_def)
  have e: "events (snd (hyper_probe_run test_config healthz_return ?hs)) \<noteq> events ?hs"
    "grpc_events (snd (tonic_probe_run test_config grpc_client_return ?ts)) \<noteq> grpc_events ?ts"
    by (simp_all add: fixture_defs helper_defs hyper_probe_defs tonic_probe_defs hyper_exec_def
        tonic_exec_def hyper_init_def tonic_init_def Let_def)
  have n: "events (hyper_exec test_config ?hcalls hyper_init) \<noteq> []"
    "grpc_events (tonic_exec test_config ?tcalls tonic_init) \<noteq> []"
    by (simp_all add: fixture_defs helper_defs hyper_probe_defs tonic_probe_defs hyper_exec_def
        tonic_exec_def hyper_init_def tonic_init_def Let_def)
  note A = end_time_is_written_by_the_removing_return_probe
      [of test_config "[healthz_entry, healthz_method]" healthz_return ?hs
          "[grpc_client_entry]" grpc_client_return ?ts]
  note B = end_time_is_written_by_the_removing_return_probe
      [of test_config ?hcalls healthz_return ?hs ?tcalls grpc_client_return ?ts]
  from A p(1) have 1: "map_option http_end_time (bpf_map_lookup_elem (context_to_http_events ?hs) 0xAA)
      = Some 0"
    by (cases "bpf_map_lookup_elem (context_to_http_events ?hs) 0xAA") simp_all
  from A p(2) have 5: "map_option grpc_end_time (bpf_map_lookup_elem (context_to_grpc_events ?ts) 0xBB)
      = Some 0"
    by (cases "bpf_map_lookup_elem (context_to_grpc_events ?ts) 0xBB") simp_all
  from A e(1) have 2: "\<exists>r. bpf_map_lookup_elem (context_to_http_events ?hs)
             (hyper_key healthz_return) = Some r
        \<and> events (snd (hyper_probe_run test_config healthz_return ?hs))
            = events ?hs @ [r\<lparr>http_end_time := bpf_ktime_get_ns (fst (snd healthz_return))\<rparr>]
        \<and> bpf_map_lookup_elem
             (context_to_http_events (snd (hyper_probe_run test_config healthz_return ?hs)))
             (hyper_key healthz_return) = None"
    by blast
  from A e(2) have 6: "\<exists>r. bpf_map_lookup_elem (context_to_grpc_events ?ts)
             (tonic_key grpc_client_return) = Some r
        \<and> grpc_events (snd (tonic_probe_run test_config grpc_client_return ?ts))
            = grpc_events ?ts @ [r\<lparr>grpc_end_time := bpf_ktime_get_ns (fst (snd grpc_client_return))\<rparr>]
        \<and> bpf_map_lookup_elem
             (context_to_grpc_events (snd (tonic_probe_run test_config grpc_client_return ?ts)))
             (tonic_key grpc_client_return) = None"
    by blast
  from B c have 3: "list_all (\<lambda>r. http_start_time r \<noteq> 0) (events (hyper_exec test_config ?hcalls hyper_init))"
    and 7: "list_all (\<lambda>r. grpc_start_time r \<noteq> 0) (grpc_events (tonic_exec test_config ?tcalls tonic_init))"
    unfolding list_all_iff by blast+
  from 1 2 3 n(1) 5 6 7 n(2) show ?thesis
    by (intro conjI)
qed

lemma clamped_copy_probe_read_into:
  assumes "length old = cap"
  shows "clamped_copy cap mem len src old (probe_read_into mem old (min cap (unat len)) src)"
proof (cases "bpf_probe_read mem (min cap (unat len)) src")
  case None
  with assms show ?thesis
    by (auto simp: clamped_copy_def probe_read_into_def min_def)
next
  case (Some bs)
  then have "length bs = min cap (unat len)"
    by (rule length_probe_read)
  with Some assms show ?thesis
    by (auto simp: clamped_copy_def probe_read_into_def min_def)
qed

text \<open>
  C7. The gRPC client entry probe, on a non-null key and a table that has the key or has
  room, returns 0 and leaves under the key the record it built in this one invocation:
  the start time it read, the span context it generated, the service name read inline
  when the service pointer is not null and the zero-initialised field when it is null,
  and the same for the method name, each independently of the other.
\<close>

theorem client_call_extracts_inline_and_inserts:
  assumes "get_argument ctx 1 = k" and "k \<noteq> 0"
    and "bpf_map_lookup_elem (context_to_grpc_events s) k \<noteq> None
         \<or> length (context_to_grpc_events s) < MAX_CONCURRENT"
    and "probe_read_u64 (user_memory env) (k + service_ptr_pos cfg) = sp"
    and "probe_read_u64 (user_memory env) (k + service_ptr_pos cfg + 8) = slen"
    and "probe_read_u64 (user_memory env) (k + method_ptr_pos cfg) = mp"
    and "probe_read_u64 (user_memory env) (k + method_ptr_pos cfg + 8) = mlen"
  shows "fst (uprobe_tonic_client_call cfg env ctx s) = 0
     \<and> bpf_map_lookup_elem
           (context_to_grpc_events (snd (uprobe_tonic_client_call cfg env ctx s))) k
       = Some \<lparr>grpc_start_time = bpf_ktime_get_ns env, grpc_end_time = 0,
               grpc_service =
                 (if sp = 0 then replicate MAX_PATH_SIZE 0
                  else probe_read_into (user_memory env) (replicate MAX_PATH_SIZE 0)
                         (min MAX_PATH_SIZE (unat slen)) sp),
               grpc_method =
                 (if mp = 0 then replicate MAX_METHOD_SIZE 0
                  else probe_read_into (user_memory env) (replicate MAX_METHOD_SIZE 0)
                         (min MAX_METHOD_SIZE (unat mlen)) mp),
               grpc_status_code = 0, grpc_sc = generate_span_context env\<rparr>"
proof -
  have "fst (uprobe_tonic_client_call cfg env ctx s) = 0"
    by (simp add: uprobe_tonic_client_call_def Let_def)
  moreover note tonic_client_call_record [OF assms(1,2) _ assms(4-7)]
  ultimately show ?thesis
    using assms(3) by (simp add: bpf_map_lookup_elem_def)
qed

theorem client_call_extracts_inline_and_inserts_witness:
  "fst (uprobe_tonic_client_call test_config (env_of 5000 (9 :: nat) null_service_memory)
          (regs_of 0xBB 0x6000) tonic_init) = 0
   \<and> bpf_map_lookup_elem
        (context_to_grpc_events
           (snd (uprobe_tonic_client_call test_config (env_of 5000 (9 :: nat) null_service_memory)
                   (regs_of 0xBB 0x6000) tonic_init))) 0xBB
     = Some \<lparr>grpc_start_time = 5000, grpc_end_time = 0,
             grpc_service = replicate 256 0,
             grpc_method = ascii ''SayHello'' @ replicate 8 0,
             grpc_status_code = 0, grpc_sc = 9\<rparr>"
proof -
  let ?env = "env_of 5000 (9 :: nat) null_service_memory"
  have "get_argument (regs_of 0xBB 0x6000) 1 = 0xBB" "(0xBB :: ptr) \<noteq> 0"
    "bpf_map_lookup_elem (context_to_grpc_events (tonic_init :: nat tonic_maps)) 0xBB \<noteq> None
         \<or> length (context_to_grpc_events (tonic_init :: nat tonic_maps)) < MAX_CONCURRENT"
    "probe_read_u64 (user_memory ?env) (0xBB + service_ptr_pos test_config) = 0"
    "probe_read_u64 (user_memory ?env) (0xBB + service_ptr_pos test_config + 8) = 7"
    "probe_read_u64 (user_memory ?env) (0xBB + method_ptr_pos test_config) = 0x5100"
    "probe_read_u64 (user_memory ?env) (0xBB + method_ptr_pos test_config + 8) = 8"
    by (simp_all add: fixture_defs helper_defs null_service_memory_def tonic_init_def)
  from client_call_extracts_inline_and_inserts [OF this]
  show ?thesis
    by (simp add: fixture_defs helper_defs null_service_memory_def)
qed

lemma hyper_table_lengths:
  assumes "bpf_map_lookup_elem (context_to_http_events (hyper_exec cfg calls hyper_init)) k = Some r"
  shows "length (http_method r) = MAX_METHOD_SIZE \<and> length (http_path r) = MAX_PATH_SIZE"
proof -
  have "hyper_wf (hyper_exec cfg calls hyper_init)"
    by (intro hyper_wf_exec hyper_wf_init)
  with assms show ?thesis
    by (simp add: hyper_wf_def bpf_map_lookup_elem_def del: map_of_eq_Some_iff)
qed

text \<open>
  C2. Each of the four extractions passes to \<^verbatim>\<open>bpf_probe_read\<close> the smaller of the field's
  capacity and the reported length, with the field as destination. In every execution,
  the HTTP method probe and the HTTP URI probe that reach their extraction leave the
  record with the one field replaced by such a clamped copy; the gRPC client probe
  inserts a record whose service and method fields are clamped copies into the zeroed
  fields, each when its pointer is not null. So the field keeps its capacity, the bytes
  after the copied ones are untouched, and a source longer than the capacity leaves its
  first \<open>capacity\<close> bytes in the field, when they can be read.
\<close>

theorem field_extraction_is_clamped:
  "(get_argument ctx 1 = k \<and> k \<noteq> 0
      \<and> probe_read_u64 (user_memory env) (k + method_ptr_pos cfg) = p \<and> p \<noteq> 0
      \<and> bpf_map_lookup_elem (context_to_http_events (hyper_exec cfg hcalls hyper_init)) k = Some r
      \<and> probe_read_u64 (user_memory env) (k + method_ptr_pos cfg + 8) = len
    \<longrightarrow> (\<exists>m. bpf_map_lookup_elem
                 (context_to_http_events
                    (snd (uprobe_hyper_request_method cfg env ctx (hyper_exec cfg hcalls hyper_init))))
                 k = Some (r\<lparr>http_method := m\<rparr>)
            \<and> m = probe_read_into (user_memory env) (http_method r)
                     (min MAX_METHOD_SIZE (unat len)) p
            \<and> clamped_copy MAX_METHOD_SIZE (user_memory env) len p (http_method r) m))
   \<and> (get_argument ctx 1 = k \<and> k \<noteq> 0
      \<and> probe_read_u64 (user_memory env) (k + uri_ptr_pos cfg) = u \<and> u \<noteq> 0
      \<and> bpf_map_lookup_elem (context_to_http_events (hyper_exec cfg hcalls hyper_init)) k = Some r
      \<and> probe_read_u64 (user_memory env) (u + path_ptr_pos cfg) = p
      \<and> probe_read_u64 (user_memory env) (u + path_ptr_pos cfg + 8) = len
    \<longrightarrow> (\<exists>m. bpf_map_lookup_elem
                 (context_to_http_events
                    (snd (uprobe_hyper_request_uri cfg env ctx (hyper_exec cfg hcalls hyper_init))))
                 k = Some (r\<lparr>http_path := m\<rparr>)
            \<and> m = probe_read_into (user_memory env) (http_path r) (min MAX_PATH_SIZE (unat len)) p
            \<and> clamped_copy MAX_PATH_SIZE (user_memory env) len p (http_path r) m))
   \<and> (get_argument ctx 1 = k \<and> k \<noteq> 0
      \<and> (bpf_map_lookup_elem (context_to_grpc_events ts) k \<noteq> None
          \<or> length (context_to_grpc_events ts) < MAX_CONCURRENT)
      \<and> probe_read_u64 (user_memory env) (k + service_ptr_pos cfg) = sp
      \<and> probe_read_u64 (user_memory env) (k + service_ptr_pos cfg + 8) = slen
      \<and> probe_read_u64 (user_memory env) (k + method_ptr_pos cfg) = mp
      \<and> probe_read_u64 (user_memory env) (k + method_ptr_pos cfg + 8) = mlen
    \<longrightarrow> (\<exists>g. bpf_map_lookup_elem
                 (context_to_grpc_events (snd (uprobe_tonic_client_call cfg env ctx ts))) k = Some g
            \<and> (sp \<noteq> 0 \<longrightarrow>
                  grpc_service g = probe_read_into (user_memory env) (replicate MAX_PATH_SIZE 0)
                                     (min MAX_PATH_SIZE (unat slen)) sp
                \<and> clamped_copy MAX_PATH_SIZE (user_memory env) slen sp
                     (replicate MAX_PATH_SIZE 0) (grpc_service g))
            \<and> (mp \<noteq> 0 \<longrightarrow>
                  grpc_method g = probe_read_into (user_memory env) (replicate MAX_METHOD_SIZE 0)
                                    (min MAX_METHOD_SIZE (unat mlen)) mp
                \<and> clamped_copy MAX_METHOD_SIZE (user_memory env) mlen mp
                     (replicate MAX_METHOD_SIZE 0) (grpc_method g))))"
proof (intro conjI impI)
  assume a: "get_argument ctx 1 = k \<and> k \<noteq> 0
      \<and> probe_read_u64 (user_memory env) (k + method_ptr_pos cfg) = p \<and> p \<noteq> 0
      \<and> bpf_map_lookup_elem (context_to_http_events (hyper_exec cfg hcalls hyper_init)) k = Some r
      \<and> probe_read_u64 (user_memory env) (k + method_ptr_pos cfg + 8) = len"
  then have "length (http_method r) = MAX_METHOD_SIZE"
    using hyper_table_lengths [of cfg hcalls k r] by simp
  then have "clamped_copy MAX_METHOD_SIZE (user_memory env) len p (http_method r)
      (probe_read_into (user_memory env) (http_method r) (min MAX_METHOD_SIZE (unat len)) p)"
    by (rule clamped_copy_probe_read_into)
  moreover have "bpf_map_lookup_elem
       (context_to_http_events
          (snd (uprobe_hyper_request_method cfg env ctx (hyper_exec cfg hcalls hyper_init)))) k
     = Some (r\<lparr>http_method := probe_read_into (user_memory env) (http_method r)
                                   (min MAX_METHOD_SIZE (unat len)) p\<rparr>)"
    using a by (intro hyper_request_method_extracts) simp_all
  ultimately show "\<exists>m. bpf_map_lookup_elem
                 (context_to_http_events
                    (snd (uprobe_hyper_request_method cfg env ctx (hyper_exec cfg hcalls hyper_init))))
                 k = Some (r\<lparr>http_method := m\<rparr>)
            \<and> m = probe_read_into (user_memory env) (http_method r)
                     (min MAX_METHOD_SIZE (unat len)) p
            \<and> clamped_copy MAX_METHOD_SIZE (user_memory env) len p (http_method r) m"
    by blast
next
  assume a: "get_argument ctx 1 = k \<and> k \<noteq> 0
      \<and> probe_read_u64 (user_memory env) (k + uri_ptr_pos cfg) = u \<and> u \<noteq> 0
      \<and> bpf_map_lookup_elem (context_to_http_events (hyper_exec cfg hcalls hyper_init)) k = Some r
      \<and> probe_read_u64 (user_memory env) (u + path_ptr_pos cfg) = p
      \<and> probe_read_u64 (user_memory env) (u + path_ptr_pos cfg + 8) = len"
  then have "length (http_path r) = MAX_PATH_SIZE"
    using hyper_table_lengths [of cfg hcalls k r] by simp
  then have "clamped_copy MAX_PATH_SIZE (user_memory env) len p (http_path r)
      (probe_read_into (user_memory env) (http_path r) (min MAX_PATH_SIZE (unat len)) p)"
    by (rule clamped_copy_probe_read_into)
  moreover have "bpf_map_lookup_elem
       (context_to_http_events
          (snd (uprobe_hyper_request_uri cfg env ctx (hyper_exec cfg hcalls hyper_init)))) k
     = Some (r\<lparr>http_path := probe_read_into (user_memory env) (http_path r)
                                 (min MAX_PATH_SIZE (unat len)) p\<rparr>)"
    using a by (intro hyper_request_uri_extracts [where u = u]) simp_all
  ultimately show "\<exists>m. bpf_map_lookup_elem
                 (context_to_http_events
                    (snd (uprobe_hyper_request_uri cfg env ctx (hyper_exec cfg hcalls hyper_init))))
                 k = Some (r\<lparr>http_path := m\<rparr>)
            \<and> m = probe_read_into (user_memory env) (http_path r) (min MAX_PATH_SIZE (unat len)) p
            \<and> clamped_copy MAX_PATH_SIZE (user_memory env) len p (http_path r) m"
    by blast
next
  assume a: "get_argument ctx 1 = k \<and> k \<noteq> 0
      \<and> (bpf_map_lookup_elem (context_to_grpc_events ts) k \<noteq> None
          \<or> length (context_to_grpc_events ts) < MAX_CONCURRENT)
      \<and> probe_read_u64 (user_memory env) (k + service_ptr_pos cfg) = sp
      \<and> probe_read_u64 (user_memory env) (k + service_ptr_pos cfg + 8) = slen
      \<and> probe_read_u64 (user_memory env) (k + method_ptr_pos cfg) = mp
      \<and> probe_read_u64 (user_memory env) (k + method_ptr_pos cfg + 8) = mlen"
  have c1: "clamped_copy MAX_PATH_SIZE (user_memory env) slen sp (replicate MAX_PATH_SIZE 0)
      (probe_read_into (user_memory env) (replicate MAX_PATH_SIZE 0) (min MAX_PATH_SIZE (unat slen)) sp)"
    by (rule clamped_copy_probe_read_into) simp
  have c2: "clamped_copy MAX_METHOD_SIZE (user_memory env) mlen mp (replicate MAX_METHOD_SIZE 0)
      (probe_read_into (user_memory env) (replicate MAX_METHOD_SIZE 0)
         (min MAX_METHOD_SIZE (unat mlen)) mp)"
    by (rule clamped_copy_probe_read_into) simp
  have "bpf_map_lookup_elem
           (context_to_grpc_events (snd (uprobe_tonic_client_call cfg env ctx ts))) k
       = Some \<lparr>grpc_start_time = bpf_ktime_get_ns env, grpc_end_time = 0,
               grpc_service =
                 (if sp = 0 then replicate MAX_PATH_SIZE 0
                  else probe_read_into (user_memory env) (replicate MAX_PATH_SIZE 0)
                         (min MAX_PATH_SIZE (unat slen)) sp),
               grpc_method =
                 (if mp = 0 then replicate MAX_METHOD_SIZE 0
                  else probe_read_into (user_memory env) (replicate MAX_METHOD_SIZE 0)
                         (min MAX_METHOD_SIZE (unat mlen)) mp),
               grpc_status_code = 0, grpc_sc = generate_span_context env\<rparr>"
    using a by (intro tonic_client_call_record) (simp_all add: bpf_map_lookup_elem_def)
  with c1 c2 show "\<exists>g. bpf_map_lookup_elem
                 (context_to_grpc_events (snd (uprobe_tonic_client_call cfg env ctx ts))) k = Some g
            \<and> (sp \<noteq> 0 \<longrightarrow>
                  grpc_service g = probe_read_into (user_memory env) (replicate MAX_PATH_SIZE 0)
                                     (min MAX_PATH_SIZE (unat slen)) sp
                \<and> clamped_copy MAX_PATH_SIZE (user_memory env) slen sp
                     (replicate MAX_PATH_SIZE 0) (grpc_service g))
            \<and> (mp \<noteq> 0 \<longrightarrow>
                  grpc_method g = probe_read_into (user_memory env) (replicate MAX_METHOD_SIZE 0)
                                    (min MAX_METHOD_SIZE (unat mlen)) mp
                \<and> clamped_copy MAX_METHOD_SIZE (user_memory env) mlen mp
                     (replicate MAX_METHOD_SIZE 0) (grpc_method g))"
    by simp
qed

theorem field_extraction_is_clamped_witness:
  "bpf_map_lookup_elem
     (context_to_http_events
        (snd (uprobe_hyper_request_method test_config (env_of 1100 (0 :: nat) long_method_memory)
                (regs_of 0xAA 0x6100) (hyper_exec test_config [healthz_entry] hyper_init))))
     0xAA
   = Some \<lparr>http_start_time = 1000, http_end_time = 0,
           http_method = ascii ''ABCDEFGHIJKLMNOP'', http_path = replicate 256 0,
           http_status_code = 0, http_sc = 7\<rparr>
   \<and> bpf_map_lookup_elem
     (context_to_http_events
        (snd (uprobe_hyper_request_uri test_config (env_of 1200 (0 :: nat) healthz_memory)
                (regs_of 0xAA 0x6200) (hyper_exec test_config [healthz_entry] hyper_init))))
     0xAA
   = Some \<lparr>http_start_time = 1000, http_end_time = 0,
           http_method = replicate 16 0, http_path = ascii ''/healthz'' @ replicate 248 0,
           http_status_code = 0, http_sc = 7\<rparr>
   \<and> (\<exists>g. bpf_map_lookup_elem
        (context_to_grpc_events
           (snd (uprobe_tonic_client_call test_config (env_of 5000 (9 :: nat) grpc_memory)
                   (regs_of 0xBB 0x6000) tonic_init))) 0xBB = Some g
        \<and> grpc_service g = ascii ''pkg.Svc'' @ replicate 249 0
        \<and> grpc_method g = ascii ''SayHello'' @ replicate 8 0)"
proof -
  let ?s1 = "hyper_exec test_config [healthz_entry] hyper_init"
  let ?fresh = "\<lparr>http_start_time = 1000, http_end_time = 0,
           http_method = replicate 16 0, http_path = replicate 256 0,
           http_status_code = 0, http_sc = 7 :: nat\<rparr>"
  let ?menv = "env_of 1100 (0 :: nat) long_method_memory"
  let ?uenv = "env_of 1200 (0 :: nat) healthz_memory"
  let ?genv = "env_of 5000 (9 :: nat) grpc_memory"
  have s1: "bpf_map_lookup_elem (context_to_http_events ?s1) 0xAA = Some ?fresh"
    by (simp add: fixture_defs helper_defs hyper_probe_defs hyper_exec_def hyper_init_def Let_def)
  have a: "get_argument (regs_of 0xAA 0x6100) 1 = 0xAA \<and> (0xAA :: ptr) \<noteq> 0
      \<and> probe_read_u64 (user_memory ?menv) (0xAA + method_ptr_pos test_config) = 0x2000
      \<and> (0x2000 :: ptr) \<noteq> 0
      \<and> bpf_map_lookup_elem (context_to_http_events ?s1) 0xAA = Some ?fresh
      \<and> probe_read_u64 (user_memory ?menv) (0xAA + method_ptr_pos test_config + 8) = 20"
    unfolding s1
    by (simp add: fixture_defs helper_defs long_method_memory_def)
  have b: "get_argument (regs_of 0xAA 0x6200) 1 = 0xAA \<and> (0xAA :: ptr) \<noteq> 0
      \<and> probe_read_u64 (user_memory ?uenv) (0xAA + uri_ptr_pos test_config) = 0x3000
      \<and> (0x3000 :: ptr) \<noteq> 0
      \<and> bpf_map_lookup_elem (context_to_http_events ?s1) 0xAA = Some ?fresh
      \<and> probe_read_u64 (user_memory ?uenv) (0x3000 + path_ptr_pos test_config) = 0x4000
      \<and> probe_read_u64 (user_memory ?uenv) (0x3000 + path_ptr_pos test_config + 8) = 8"
    unfolding s1
    by (simp add: fixture_defs helper_defs)
  have c: "get_argument (regs_of 0xBB 0x6000) 1 = 0xBB \<and> (0xBB :: ptr) \<noteq> 0
      \<and> (bpf_map_lookup_elem (context_to_grpc_events (tonic_init :: nat tonic_maps)) 0xBB \<noteq> None
          \<or> length (context_to_grpc_events (tonic_init :: nat tonic_maps)) < MAX_CONCURRENT)
      \<and> probe_read_u64 (user_memory ?genv) (0xBB + service_ptr_pos test_config) = 0x5000
      \<and> probe_read_u64 (user_memory ?genv) (0xBB + service_ptr_pos test_config + 8) = 7
      \<and> probe_read_u64 (user_memory ?genv) (0xBB + method_ptr_pos test_config) = 0x5100
      \<and> probe_read_u64 (user_memory ?genv) (0xBB + method_ptr_pos test_config + 8) = 8"
    by (simp add: fixture_defs helper_defs tonic_init_def)
  have rd: "bpf_probe_read (user_memory ?menv) 16 0x2000 = Some (ascii ''ABCDEFGHIJKLMNOP'')"
    "bpf_probe_read (user_memory ?uenv) 8 0x4000 = Some (ascii ''/healthz'')"
    "bpf_probe_read (user_memory ?genv) 7 0x5000 = Some (ascii ''pkg.Svc'')"
    "bpf_probe_read (user_memory ?genv) 8 0x5100 = Some (ascii ''SayHello'')"
    by (simp_all add: fixture_defs helper_defs long_method_memory_def)
  note A = field_extraction_is_clamped
      [where ctx = "regs_of 0xAA 0x6100" and k = "0xAA" and env = ?menv and cfg = test_config
         and p = "0x2000" and hcalls = "[healthz_entry]" and r = ?fresh and len = 20,
       THEN conjunct1, THEN mp, OF a]
  note B = field_extraction_is_clamped
      [where ctx = "regs_of 0xAA 0x6200" and k = "0xAA" and env = ?uenv and cfg = test_config
         and p = "0x4000" and hcalls = "[healthz_entry]" and r = ?fresh and len = 8
         and u = "0x3000",
       THEN conjunct2, THEN conjunct1, THEN mp, OF b]
  note C = field_extraction_is_clamped
      [where ctx = "regs_of 0xBB 0x6000" and k = "0xBB" and env = ?genv and cfg = test_config
         and ts = tonic_init and sp = "0x5000" and slen = 7 and mp = "0x5100" and mlen = 8,
       THEN conjunct2, THEN conjunct2, THEN mp, OF c]
  from A rd(1) have 1: "bpf_map_lookup_elem
     (context_to_http_events
        (snd (uprobe_hyper_request_method test_config ?menv (regs_of 0xAA 0x6100) ?s1))) 0xAA
   = Some (?fresh\<lparr>http_method := ascii ''ABCDEFGHIJKLMNOP''\<rparr>)"
    unfolding clamped_copy_def by (auto simp: MAX_METHOD_SIZE_def)
  from B rd(2) have 2: "bpf_map_lookup_elem
     (context_to_http_events
        (snd (uprobe_hyper_request_uri test_config ?uenv (regs_of 0xAA 0x6200) ?s1))) 0xAA
   = Some (?fresh\<lparr>http_path := ascii ''/healthz'' @ replicate 248 0\<rparr>)"
    unfolding clamped_copy_def by (auto simp: MAX_PATH_SIZE_def)
  from C rd(3,4) have 3: "\<exists>g. bpf_map_lookup_elem
        (context_to_grpc_events
           (snd (uprobe_tonic_client_call test_config ?genv (regs_of 0xBB 0x6000) tonic_init))) 0xBB
         = Some g
        \<and> grpc_service g = ascii ''pkg.Svc'' @ replicate 249 0
        \<and> grpc_method g = ascii ''SayHello'' @ replicate 8 0"
    unfolding clamped_copy_def by (auto simp: MAX_PATH_SIZE_def MAX_METHOD_SIZE_def)
  from 1 2 3 show ?thesis
    by simp
qed

text \<open>
  C8, as stated, fails on the status code: no gRPC probe reads or writes
  \<^verbatim>\<open>status_code\<close>. A server request whose return probe sees the return value 2 in the
  registers is emitted with the status code 0 of the zero-initialisation, and no
  execution ever emits a record with another status code.
\<close>

theorem grpc_status_code_is_never_captured:
  "grpc_events (tonic_exec test_config [grpc_server_entry, grpc_server_return_status] tonic_init)
     = [\<lparr>grpc_start_time = 5000, grpc_end_time = 6000,
          grpc_service = replicate 256 0, grpc_method = replicate 16 0,
          grpc_status_code = 0, grpc_sc = 9\<rparr>]
   \<and> \<not> (\<exists>cfg calls r. r \<in> set (grpc_events (tonic_exec cfg calls (tonic_init :: nat tonic_maps)))
                        \<and> grpc_status_code r \<noteq> 0)"
proof -
  have "tonic_wf (tonic_exec cfg calls (tonic_init :: nat tonic_maps))" for cfg calls
    by (intro tonic_wf_exec tonic_wf_init)
  then have "\<not> (\<exists>cfg calls r. r \<in> set (grpc_events (tonic_exec cfg calls (tonic_init :: nat tonic_maps)))
                        \<and> grpc_status_code r \<noteq> 0)"
    unfolding tonic_wf_def by blast
  moreover have "grpc_events (tonic_exec test_config [grpc_server_entry, grpc_server_return_status] tonic_init)
     = [\<lparr>grpc_start_time = 5000, grpc_end_time = 6000,
          grpc_service = replicate 256 0, grpc_method = replicate 16 0,
          grpc_status_code = 0, grpc_sc = 9\<rparr>]"
    by (simp add: fixture_defs helper_defs tonic_probe_defs tonic_exec_def tonic_init_def Let_def
        grpc_server_entry_def grpc_server_return_status_def)
  ultimately show ?thesis
    by (intro conjI)
qed

text \<open>
  C8, amended. Take a gRPC server request: the server entry probe has inserted a record
  for key \<open>k\<close>, no probe works on \<open>k\<close> in between, and the server return probe reads \<open>k\<close>.
  The return probe appends exactly one record: its start and end timestamps are the
  clock readings of the entry and of the return probe, its service and method fields
  are unwritten (all zero), and its status code is the 0 of the zero-initialisation,
  which no probe writes.
\<close>

theorem grpc_server_pair_record:
  assumes "entry = (Tonic_server_serve, env0, ctx0)" and "get_argument ctx0 1 = k"
    and "bpf_map_lookup_elem
        (context_to_grpc_events (tonic_exec cfg (pre @ [entry]) tonic_init)) k \<noteq> None"
    and "\<forall>c \<in> set mid. tonic_key c \<noteq> k"
    and "ret = (Tonic_server_serve_return, env1, ctx1)"
    and "get_argument_by_stack (user_memory env1) ctx1 1 = k"
  shows "grpc_events (tonic_exec cfg (pre @ entry # mid @ [ret]) tonic_init)
       = grpc_events (tonic_exec cfg (pre @ entry # mid) tonic_init)
         @ [\<lparr>grpc_start_time = bpf_ktime_get_ns env0, grpc_end_time = bpf_ktime_get_ns env1,
              grpc_service = replicate MAX_PATH_SIZE 0,
              grpc_method = replicate MAX_METHOD_SIZE 0,
              grpc_status_code = 0, grpc_sc = generate_span_context env0\<rparr>]"
  using assms by (rule tonic_server_pair_record)

theorem grpc_server_pair_record_witness:
  "grpc_events (tonic_exec test_config ([] @ grpc_server_entry # [] @ [grpc_server_return]) tonic_init)
     = grpc_events (tonic_exec test_config ([] @ grpc_server_entry # []) tonic_init)
       @ [\<lparr>grpc_start_time = 5000, grpc_end_time = 6000,
            grpc_service = replicate MAX_PATH_SIZE 0,
            grpc_method = replicate MAX_METHOD_SIZE 0,
            grpc_status_code = 0, grpc_sc = 9\<rparr>]"
proof -
  have "grpc_server_entry = (Tonic_server_serve, env_of 5000 9 grpc_memory, regs_of 0xBB 0x6000)"
    "get_argument (regs_of 0xBB 0x6000) 1 = 0xBB"
    "bpf_map_lookup_elem
        (context_to_grpc_events (tonic_exec test_config ([] @ [grpc_server_entry]) tonic_init)) 0xBB
       \<noteq> None"
    "\<forall>c \<in> set ([] :: nat tonic_call list). tonic_key c \<noteq> 0xBB"
    "grpc_server_return = (Tonic_server_serve_return, env_of 6000 0 grpc_memory, regs_of 0 0x7100)"
    "get_argument_by_stack (user_memory (env_of 6000 (0 :: nat) grpc_memory)) (regs_of 0 0x7100) 1 = 0xBB"
    by (simp_all add: fixture_defs helper_defs tonic_probe_defs tonic_exec_def tonic_init_def Let_def
        grpc_server_entry_def)
  from grpc_server_pair_record [OF this]
  show ?thesis
    by (simp add: env_of_def)
qed

end
